theory Spec2Isabelle
  imports Main "HOL-Library.Sublist"
begin

section \<open>The notebook \<open>examples/api_widgets_demo.ipynb\<close>\<close>

text \<open>
  The notebook is a sequence of code cells. Everything a cell does is a call into an
  external library (the SlideRule client, ipywidgets, ipyleaflet, matplotlib, cartopy,
  pandas) or the assembly of a Python dictionary. The libraries are not part of the
  notebook: they are a parameter of the model (an oracle that answers every call),
  and each call a cell makes is recorded, with its answer, in a history of events.
\<close>

subsection \<open>Python values\<close>

text \<open>
  A float is kept as mantissa and binary exponent: the notebook passes floats on and
  never computes with them.
\<close>

datatype scalar = SNone | SBool bool | SInt int | SFloat int int | SStr string

datatype pyval = Scalar scalar | PList "pyval list" | PDict "(string \<times> pyval) list"

type_synonym pydict = "(string \<times> pyval) list"

text \<open>A Python exception: its class and its message.\<close>

datatype exn = Exn string string

definition NameError :: "string \<Rightarrow> exn" where
  "NameError name = Exn ''NameError'' name"

definition KeyError :: "string \<Rightarrow> exn" where
  "KeyError k = Exn ''KeyError'' k"

definition TypeError :: "string \<Rightarrow> exn" where
  "TypeError msg = Exn ''TypeError'' msg"

text \<open>
  \<^verbatim>\<open>d[k] = v\<close> on a dictionary: an existing key keeps its place and takes the new
  value, a new key goes to the end (dictionaries keep insertion order).
\<close>

fun dict_set :: "pydict \<Rightarrow> string \<Rightarrow> pyval \<Rightarrow> pydict" where
  "dict_set [] k v = [(k, v)]"
| "dict_set ((k', v') # d) k v =
     (if k' = k then (k, v) # d else (k', v') # dict_set d k v)"

text \<open>A dictionary display \<^verbatim>\<open>{k1: v1, k2: v2, ...}\<close> stores its items from left to right.\<close>

definition dict_literal :: "(string \<times> pyval) list \<Rightarrow> pydict" where
  "dict_literal items = foldl (\<lambda>d (k, v). dict_set d k v) [] items"

text \<open>
  \<^verbatim>\<open>x[k]\<close> with a string key: the value of a dictionary key, \<^verbatim>\<open>KeyError\<close> for a
  missing key, \<^verbatim>\<open>TypeError\<close> for a value that is not a dictionary.
\<close>

definition subscript :: "pyval \<Rightarrow> string \<Rightarrow> exn + pyval" where
  "subscript x k =
     (case x of
        PDict d \<Rightarrow> (case map_of d k of Some v \<Rightarrow> Inr v | None \<Rightarrow> Inl (KeyError k))
      | _ \<Rightarrow> Inl (TypeError k))"

definition is_scalar :: "pyval \<Rightarrow> bool" where
  "is_scalar v = (case v of Scalar _ \<Rightarrow> True | _ \<Rightarrow> False)"

definition is_list :: "pyval \<Rightarrow> bool" where
  "is_list v = (case v of PList _ \<Rightarrow> True | _ \<Rightarrow> False)"

definition is_mapping :: "pyval \<Rightarrow> bool" where
  "is_mapping v = (case v of PDict _ \<Rightarrow> True | _ \<Rightarrow> False)"

subsection \<open>What the user has set when a cell runs\<close>

text \<open>
  Modelled from the spec: the tabular storage formats of \<^verbatim>\<open>SRwidgets.format\<close>. The
  module \<^verbatim>\<open>ipysliderule\<close> that declares the widgets is not among the sources; the
  notebook names the formats in its comments: "save to file in format (HDF5 or netCDF)".
\<close>

datatype file_format = HDF5 | NetCDF

text \<open>
  Modelled from the spec: the attributes of \<^verbatim>\<open>SRwidgets\<close> and of the map \<^verbatim>\<open>m\<close>
  that the cells read, with the types the spec gives the parameter record (scalars, a
  classification list, polygon boundaries). The widgets are declared in the module
  \<^verbatim>\<open>ipysliderule\<close>, which is not among the sources. A value of this record is the
  state of the widgets and of the map at the moment a cell runs: the user changes it
  between cells.
\<close>

record ui =
  asset_value :: scalar
  release_value :: scalar
  surface_type_index :: scalar
  length_value :: scalar
  step_value :: scalar
  confidence_value :: scalar
  land_class_value :: "pyval list"
  iteration_value :: scalar
  spread_value :: scalar
  count_value :: scalar
  window_value :: scalar
  sigma_value :: scalar
  projection_value :: scalar
  file_name :: string
  format :: file_format
  regions :: "pyval list"

subsection \<open>The parameter record\<close>

text \<open>The dictionary \<^verbatim>\<open>parms\<close> that the loop body builds for the polygon \<^verbatim>\<open>poly\<close>.\<close>

definition build_parms :: "ui \<Rightarrow> pyval \<Rightarrow> pydict" where
  "build_parms w poly = dict_literal
     [(''poly'', poly),
      (''srt'', Scalar (surface_type_index w)),
      (''len'', Scalar (length_value w)),
      (''res'', Scalar (step_value w)),
      (''cnf'', Scalar (confidence_value w)),
      (''atl08_class'', PList (land_class_value w)),
      (''maxi'', Scalar (iteration_value w)),
      (''ats'', Scalar (spread_value w)),
      (''cnt'', Scalar (count_value w)),
      (''H_min_win'', Scalar (window_value w)),
      (''sigma_r_max'', Scalar (sigma_value w))]"

subsection \<open>External calls and their history\<close>

text \<open>
  One constructor for each call the notebook makes, with the arguments the notebook
  passes. \<open>'f\<close> is the type of the result tables (GeoDataFrames), which the notebook
  never looks into. A figure and its axes are named by the figure number
  (\<^verbatim>\<open>num=1\<close>, \<^verbatim>\<open>num=2\<close>). The decoration calls on an axes, a figure or the colorbar
  carry the method name and the text of their arguments. A call stands for the whole
  call expression, the construction of constant arguments
  (\<^verbatim>\<open>cartopy.crs.PlateCarree()\<close>, \<^verbatim>\<open>np.arange(...)\<close>) included. Python evaluates
  the method of a call before its arguments: where the arguments make calls of their
  own (\<^verbatim>\<open>gdf.append(icesat2.atl06p(...))\<close>, \<^verbatim>\<open>ax1.plot(gdf.geometry.x, ...)\<close>,
  \<^verbatim>\<open>ax2.scatter(gdf.geometry.x, ...)\<close>), the lookup of the method is a call of its own
  (\<open>Gdf_append_lookup\<close>, \<open>Ax_lookup\<close>) before them; elsewhere it is part of the call.
\<close>

datatype 'f call =
    Import string
  | Magic string
  | Icesat2_init string string
  | Ipysliderule_widgets
  | Widgets_VBox "string list"
  | Ipysliderule_leaflet scalar
  | M_map
  | Icesat2_emptyframe
  | Icesat2_atl06p pydict scalar scalar
  | Gdf_append_lookup 'f
  | Gdf_append 'f 'f
  | Plt_subplots nat
  | Gdf_geometry_x 'f
  | Gdf_geometry_y 'f
  | Gdf_h_mean 'f
  | Ax_lookup nat string
  | Ax_plot nat pyval pyval string
  | Ax_scatter nat pyval pyval pyval
  | Ax_call nat string "string list"
  | Fig_call nat string "string list"
  | Fig_colorbar nat
  | Cbar_call string "string list"
  | Io_from_region pyval
  | Plt_show
  | Display string
  | Icesat2_get_version
  | Io_to_file 'f string file_format string pydict "pyval list"
  | Io_from_file string file_format string

text \<open>The answer to a call: an exception, or a value of the kind the call returns.\<close>

datatype 'f resp =
    Raised exn
  | Ret_none
  | Ret_frame 'f
  | Ret_val pyval
  | Ret_pair pyval pyval

datatype 'f event = Ev "'f call" "'f resp"

type_synonym 'f history = "'f event list"

text \<open>
  The external world: what a call answers after a given history. Calls are grouped by
  the kind of value the notebook expects back: nothing it uses (\<open>world_unit\<close>), a table
  (\<open>world_frame\<close>), a plain value (\<open>world_val\<close>) or a pair (\<open>world_pair\<close>).
\<close>

record 'f ext =
  world_unit :: "'f history \<Rightarrow> 'f call \<Rightarrow> exn option"
  world_frame :: "'f history \<Rightarrow> 'f call \<Rightarrow> exn + 'f"
  world_val :: "'f history \<Rightarrow> 'f call \<Rightarrow> exn + pyval"
  world_pair :: "'f history \<Rightarrow> 'f call \<Rightarrow> exn + pyval \<times> pyval"

subsection \<open>Computations of the notebook\<close>

text \<open>
  A computation takes the history so far and returns its result, an exception or a
  value, with the history extended by the calls it made. An exception ends the
  computation: nothing in the notebook catches one.
\<close>

type_synonym ('f, 'a) nb = "'f history \<Rightarrow> (exn + 'a) \<times> 'f history"

definition ret :: "'a \<Rightarrow> ('f, 'a) nb" where
  "ret x h = (Inr x, h)"

definition raise :: "exn \<Rightarrow> ('f, 'a) nb" where
  "raise e h = (Inl e, h)"

definition bnd :: "('f, 'a) nb \<Rightarrow> ('a \<Rightarrow> ('f, 'b) nb) \<Rightarrow> ('f, 'b) nb" where
  "bnd m k h = (case m h of (Inl e, h') \<Rightarrow> (Inl e, h') | (Inr x, h') \<Rightarrow> k x h')"

definition pure_step :: "exn + 'a \<Rightarrow> ('f, 'a) nb" where
  "pure_step r h = (r, h)"

definition call_unit :: "'f ext \<Rightarrow> 'f call \<Rightarrow> ('f, unit) nb" where
  "call_unit x c h =
     (case world_unit x h c of
        Some e \<Rightarrow> (Inl e, h @ [Ev c (Raised e)])
      | None \<Rightarrow> (Inr (), h @ [Ev c Ret_none]))"

definition call_frame :: "'f ext \<Rightarrow> 'f call \<Rightarrow> ('f, 'f) nb" where
  "call_frame x c h =
     (case world_frame x h c of
        Inl e \<Rightarrow> (Inl e, h @ [Ev c (Raised e)])
      | Inr g \<Rightarrow> (Inr g, h @ [Ev c (Ret_frame g)]))"

definition call_val :: "'f ext \<Rightarrow> 'f call \<Rightarrow> ('f, pyval) nb" where
  "call_val x c h =
     (case world_val x h c of
        Inl e \<Rightarrow> (Inl e, h @ [Ev c (Raised e)])
      | Inr v \<Rightarrow> (Inr v, h @ [Ev c (Ret_val v)]))"

definition call_pair :: "'f ext \<Rightarrow> 'f call \<Rightarrow> ('f, pyval \<times> pyval) nb" where
  "call_pair x c h =
     (case world_pair x h c of
        Inl e \<Rightarrow> (Inl e, h @ [Ev c (Raised e)])
      | Inr (a, b) \<Rightarrow> (Inr (a, b), h @ [Ev c (Ret_pair a b)]))"

text \<open>Statements in a row whose values are not used.\<close>

fun calls :: "'f ext \<Rightarrow> 'f call list \<Rightarrow> ('f, unit) nb" where
  "calls x [] = ret ()"
| "calls x (c # cs) = bnd (call_unit x c) (\<lambda>_. calls x cs)"

subsection \<open>The cells\<close>

text \<open>Cell 1, "Load necessary packages": six imports and two IPython magics.\<close>

definition cell_imports :: "'f ext \<Rightarrow> ('f, unit) nb" where
  "cell_imports x = calls x
     [Import ''sliderule'', Import ''logging'', Import ''numpy'',
      Import ''matplotlib.pyplot'', Import ''cartopy'', Import ''ipywidgets'',
      Magic ''load_ext autoreload'', Magic ''autoreload 2'']"

text \<open>
  Cell 2, "Set options": the service is initialised, the widgets are created and shown
  in a box, for the user to set.
\<close>

definition cell_options :: "'f ext \<Rightarrow> ('f, unit) nb" where
  "cell_options x = calls x
     [Icesat2_init ''icesat2sliderule.org'' ''logging.WARNING'',
      Ipysliderule_widgets,
      Widgets_VBox [''asset'', ''release'', ''surface_type'', ''length'', ''step'',
        ''confidence'', ''land_class'', ''iteration'', ''spread'', ''count'', ''window'',
        ''sigma'', ''projection'']]"

text \<open>
  Cell 3, "Select regions of interest": the map is created in the chosen projection
  and shown, for the user to draw polygons on.
\<close>

definition cell_map :: "'f ext \<Rightarrow> ui \<Rightarrow> ('f, unit) nb" where
  "cell_map x w = calls x [Ipysliderule_leaflet (projection_value w), M_map]"

text \<open>
  Cell 4, "Build and transmit requests". The loop state is the table \<^verbatim>\<open>gdf\<close> and the
  name \<^verbatim>\<open>parms\<close>, which is bound only once the loop body has run (\<open>None\<close> before).
  \<^verbatim>\<open>
  gdf = icesat2.__emptyframe()
  for poly in m.regions:
      parms = { "poly": poly, ... }
      gdf = gdf.append(icesat2.atl06p(parms, asset, version=release))
  \<close>
\<close>

fun request_loop ::
  "'f ext \<Rightarrow> ui \<Rightarrow> scalar \<Rightarrow> scalar \<Rightarrow> pyval list \<Rightarrow> 'f \<times> pydict option \<Rightarrow>
   ('f, 'f \<times> pydict option) nb" where
  "request_loop x w asset release [] st = ret st"
| "request_loop x w asset release (poly # rest) st =
     (let parms = build_parms w poly in
      bnd (call_unit x (Gdf_append_lookup (fst st))) (\<lambda>_.
      bnd (call_frame x (Icesat2_atl06p parms asset release)) (\<lambda>t.
      bnd (call_frame x (Gdf_append (fst st) t)) (\<lambda>gdf.
      request_loop x w asset release rest (gdf, Some parms)))))"

definition cell_request :: "'f ext \<Rightarrow> ui \<Rightarrow> ('f, 'f \<times> pydict option) nb" where
  "cell_request x w =
     (let asset = asset_value w; release = release_value w in
      bnd (call_frame x Icesat2_emptyframe) (\<lambda>gdf.
      request_loop x w asset release (regions w) (gdf, None)))"

text \<open>Cell 5, "Create output plots", first half: the global map of the ground tracks.\<close>

definition ground_tracks_decoration :: "'f call list" where
  "ground_tracks_decoration =
     [Ax_call 1 ''set_extent'' [''(-180,180,-90,90)'', ''crs=cartopy.crs.PlateCarree()''],
      Ax_call 1 ''add_feature'' [''cartopy.feature.LAND'', ''zorder=0'', ''edgecolor=black''],
      Ax_call 1 ''add_feature'' [''cartopy.feature.LAKES''],
      Ax_call 1 ''gridlines''
        [''xlocs=np.arange(-180.,181.,60.)'', ''ylocs=np.arange(-90.,91.,30.)''],
      Ax_call 1 ''set_title'' [''Ground Tracks''],
      Ax_call 1 ''spines[geo].set_linewidth'' [''2.0''],
      Ax_call 1 ''spines[geo].set_capstyle'' [''projecting''],
      Fig_call 1 ''subplots_adjust''
        [''left=0.02'', ''right=0.98'', ''bottom=0.05'', ''top=0.98'']]"

definition plot_ground_tracks :: "'f ext \<Rightarrow> 'f \<Rightarrow> ('f, unit) nb" where
  "plot_ground_tracks x gdf =
     bnd (call_unit x (Plt_subplots 1)) (\<lambda>_.
     bnd (call_unit x (Ax_lookup 1 ''plot'')) (\<lambda>_.
     bnd (call_val x (Gdf_geometry_x gdf)) (\<lambda>xs.
     bnd (call_val x (Gdf_geometry_y gdf)) (\<lambda>ys.
     bnd (call_unit x (Ax_plot 1 xs ys ''r.'')) (\<lambda>_.
     calls x ground_tracks_decoration)))))"

text \<open>
  Second half: the local map of the heights, with the outline of every region and a
  colorbar.
  \<^verbatim>\<open>
  for poly in m.regions:
      lon,lat = io.from_region(poly)
      ax2.plot(lon, lat, 'r', lw=1.5, transform=cartopy.crs.PlateCarree())
  \<close>
\<close>

fun outline_loop :: "'f ext \<Rightarrow> pyval list \<Rightarrow> ('f, unit) nb" where
  "outline_loop x [] = ret ()"
| "outline_loop x (poly # rest) =
     bnd (call_pair x (Io_from_region poly)) (\<lambda>(lon, lat).
     bnd (call_unit x (Ax_plot 2 lon lat ''r'')) (\<lambda>_.
     outline_loop x rest))"

definition heights_decoration :: "'f call list" where
  "heights_decoration =
     [Ax_call 2 ''add_feature'' [''cartopy.feature.LAND'', ''zorder=0'', ''edgecolor=black''],
      Ax_call 2 ''add_feature'' [''cartopy.feature.LAKES''],
      Fig_call 2 ''add_axes'' [''[0.87, 0.015, 0.0325, 0.94]''],
      Fig_colorbar 2,
      Cbar_call ''solids.set_rasterized'' [''True''],
      Cbar_call ''ax.set_ylabel'' [''Height above WGS84 Ellipsoid'', ''labelpad=10''],
      Cbar_call ''ax.set_xlabel'' [''m'', ''rotation=0''],
      Cbar_call ''ax.xaxis.set_label_coords'' [''0.5'', ''1.05''],
      Cbar_call ''ax.tick_params'' [''which=both'', ''width=1'', ''direction=in''],
      Ax_call 2 ''spines[geo].set_linewidth'' [''2.0''],
      Ax_call 2 ''spines[geo].set_capstyle'' [''projecting''],
      Fig_call 2 ''subplots_adjust''
        [''left=0.02'', ''right=0.86'', ''bottom=0.05'', ''top=0.98''],
      Plt_show]"

definition plot_heights :: "'f ext \<Rightarrow> ui \<Rightarrow> 'f \<Rightarrow> ('f, unit) nb" where
  "plot_heights x w gdf =
     bnd (call_unit x (Plt_subplots 2)) (\<lambda>_.
     bnd (call_unit x (Ax_lookup 2 ''scatter'')) (\<lambda>_.
     bnd (call_val x (Gdf_geometry_x gdf)) (\<lambda>xs.
     bnd (call_val x (Gdf_geometry_y gdf)) (\<lambda>ys.
     bnd (call_val x (Gdf_h_mean gdf)) (\<lambda>cs.
     bnd (call_unit x (Ax_scatter 2 xs ys cs)) (\<lambda>_.
     bnd (outline_loop x (regions w)) (\<lambda>_.
     calls x heights_decoration)))))))"

definition cell_plot :: "'f ext \<Rightarrow> ui \<Rightarrow> 'f \<Rightarrow> ('f, unit) nb" where
  "cell_plot x w gdf = bnd (plot_ground_tracks x gdf) (\<lambda>_. plot_heights x w gdf)"

text \<open>Cells 6 and 8 show the file chooser widgets.\<close>

definition cell_filesaver :: "'f ext \<Rightarrow> ('f, unit) nb" where
  "cell_filesaver x = call_unit x (Display ''SRwidgets.filesaver'')"

definition cell_fileloader :: "'f ext \<Rightarrow> ('f, unit) nb" where
  "cell_fileloader x = call_unit x (Display ''SRwidgets.fileloader'')"

text \<open>
  Cell 7, the save step. In \<^verbatim>\<open>parms['version'] = version['icesat2']['version']\<close> Python
  evaluates the right-hand side first and looks the name \<^verbatim>\<open>parms\<close> up after it; an
  unbound name raises \<^verbatim>\<open>NameError\<close>. The cell returns the dictionary it has
  updated.
\<close>

definition cell_save :: "'f ext \<Rightarrow> ui \<Rightarrow> 'f \<Rightarrow> pydict option \<Rightarrow> ('f, pydict) nb" where
  "cell_save x w gdf parms =
     bnd (call_val x Icesat2_get_version) (\<lambda>version.
     bnd (pure_step (subscript version ''icesat2'')) (\<lambda>i.
     bnd (pure_step (subscript i ''version'')) (\<lambda>v.
     (case parms of
        None \<Rightarrow> raise (NameError ''parms'')
      | Some p \<Rightarrow>
          bnd (pure_step (subscript version ''icesat2'')) (\<lambda>i'.
          bnd (pure_step (subscript i' ''commit'')) (\<lambda>c.
          (let p' = dict_set (dict_set p ''version'' v) ''commit'' c in
           bnd (call_unit x
                 (Io_to_file gdf (file_name w) (format w) ''pytables'' p' (regions w)))
             (\<lambda>_. ret p'))))))))"

text \<open>Cell 9, the load step: \<^verbatim>\<open>gdf\<close> is bound to the table read from the file.\<close>

definition cell_load :: "'f ext \<Rightarrow> ui \<Rightarrow> ('f, 'f) nb" where
  "cell_load x w = call_frame x (Io_from_file (file_name w) (format w) ''pytables'')"

subsection \<open>The notebook, run from top to bottom\<close>

text \<open>
  The state of the widgets and of the map when each of the cells that read it runs.
\<close>

record session =
  at_map :: ui
  at_request :: ui
  at_plot :: ui
  at_save :: ui
  at_load :: ui

text \<open>
  The cells in the order of the notebook, in a fresh kernel. The names a cell reads are
  those the cells before it have bound; the run stops at the first exception. The
  result is the table that the last cell binds to \<^verbatim>\<open>gdf\<close>.
\<close>

definition notebook :: "'f ext \<Rightarrow> session \<Rightarrow> ('f, 'f) nb" where
  "notebook x u =
     bnd (cell_imports x) (\<lambda>_.
     bnd (cell_options x) (\<lambda>_.
     bnd (cell_map x (at_map u)) (\<lambda>_.
     bnd (cell_request x (at_request u)) (\<lambda>(gdf, parms).
     bnd (cell_plot x (at_plot u) gdf) (\<lambda>_.
     bnd (cell_filesaver x) (\<lambda>_.
     bnd (cell_save x (at_save u) gdf parms) (\<lambda>_.
     bnd (cell_fileloader x) (\<lambda>_.
     cell_load x (at_load u)))))))))"

subsection \<open>Reading a history\<close>

fun call_of :: "'f event \<Rightarrow> 'f call" where
  "call_of (Ev c r) = c"

text \<open>The exceptions that external calls raised, in order.\<close>

fun raised :: "'f event \<Rightarrow> exn option" where
  "raised (Ev c (Raised e)) = Some e"
| "raised (Ev c _) = None"

definition raised_in :: "'f history \<Rightarrow> exn list" where
  "raised_in t = List.map_filter raised t"

text \<open>
  The exceptions that the notebook's own statements can raise: an unbound name and a
  failed subscription.
\<close>

definition internal :: "exn \<Rightarrow> bool" where
  "internal e = (case e of Exn cls msg \<Rightarrow> cls \<in> {''NameError'', ''KeyError'', ''TypeError''})"

text \<open>The parameter records transmitted to the processing endpoint, in order.\<close>

fun request_of :: "'f call \<Rightarrow> pydict option" where
  "request_of (Icesat2_atl06p parms asset release) = Some parms"
| "request_of _ = None"

definition requests :: "'f history \<Rightarrow> pydict list" where
  "requests h = List.map_filter (\<lambda>ev. request_of (call_of ev)) h"

text \<open>The tables that the processing endpoint returned, in order.\<close>

fun table_of :: "'f event \<Rightarrow> 'f option" where
  "table_of (Ev (Icesat2_atl06p parms asset release) (Ret_frame t)) = Some t"
| "table_of (Ev _ r) = None"

definition tables :: "'f history \<Rightarrow> 'f list" where
  "tables h = List.map_filter table_of h"

text \<open>The numbers of the figures that \<^verbatim>\<open>plt.subplots\<close> is asked to create, in order.\<close>

fun figure_of :: "'f call \<Rightarrow> nat option" where
  "figure_of (Plt_subplots n) = Some n"
| "figure_of _ = None"

definition figures :: "'f history \<Rightarrow> nat list" where
  "figures h = List.map_filter (\<lambda>ev. figure_of (call_of ev)) h"

subsection \<open>The shape of a run\<close>

text \<open>
  A call with every argument that stems from an earlier answer blanked: the tables, the
  columns read from a table, the coordinates of an outline and the saved parameters.
  What is left of a call is fixed by what the user has set.
\<close>

definition blank :: "'f call \<Rightarrow> unit call" where
  "blank c =
     (case map_call (\<lambda>_. ()) c of
        Ax_plot n _ _ style \<Rightarrow> Ax_plot n (PList []) (PList []) style
      | Ax_scatter n _ _ _ \<Rightarrow> Ax_scatter n (PList []) (PList []) (PList [])
      | Io_to_file g f fm d _ r \<Rightarrow> Io_to_file g f fm d [] r
      | c' \<Rightarrow> c')"

definition shape :: "'f history \<Rightarrow> unit call list" where
  "shape t = map (\<lambda>ev. blank (call_of ev)) t"

text \<open>The calls of a whole run, blanked, cell by cell.\<close>

definition plan_imports :: "unit call list" where
  "plan_imports =
     [Import ''sliderule'', Import ''logging'', Import ''numpy'',
      Import ''matplotlib.pyplot'', Import ''cartopy'', Import ''ipywidgets'',
      Magic ''load_ext autoreload'', Magic ''autoreload 2'']"

definition plan_options :: "unit call list" where
  "plan_options =
     [Icesat2_init ''icesat2sliderule.org'' ''logging.WARNING'',
      Ipysliderule_widgets,
      Widgets_VBox [''asset'', ''release'', ''surface_type'', ''length'', ''step'',
        ''confidence'', ''land_class'', ''iteration'', ''spread'', ''count'', ''window'',
        ''sigma'', ''projection'']]"

definition plan_map :: "ui \<Rightarrow> unit call list" where
  "plan_map w = [Ipysliderule_leaflet (projection_value w), M_map]"

definition plan_loop :: "ui \<Rightarrow> pyval list \<Rightarrow> unit call list" where
  "plan_loop w ps =
     concat (map (\<lambda>poly.
       [Gdf_append_lookup (),
        Icesat2_atl06p (build_parms w poly) (asset_value w) (release_value w),
        Gdf_append () ()]) ps)"

definition plan_request :: "ui \<Rightarrow> unit call list" where
  "plan_request w = Icesat2_emptyframe # plan_loop w (regions w)"

definition plan_outlines :: "pyval list \<Rightarrow> unit call list" where
  "plan_outlines ps =
     concat (map (\<lambda>poly. [Io_from_region poly, Ax_plot 2 (PList []) (PList []) ''r'']) ps)"

definition plan_plot :: "ui \<Rightarrow> unit call list" where
  "plan_plot w =
     [Plt_subplots 1, Ax_lookup 1 ''plot'', Gdf_geometry_x (), Gdf_geometry_y (),
      Ax_plot 1 (PList []) (PList []) ''r.''] @ ground_tracks_decoration @
     [Plt_subplots 2, Ax_lookup 2 ''scatter'', Gdf_geometry_x (), Gdf_geometry_y (),
      Gdf_h_mean (),
      Ax_scatter 2 (PList []) (PList []) (PList [])] @
     plan_outlines (regions w) @ heights_decoration"

definition plan_save :: "ui \<Rightarrow> unit call list" where
  "plan_save w =
     [Icesat2_get_version,
      Io_to_file () (file_name w) (format w) ''pytables'' [] (regions w)]"

definition plan_load :: "ui \<Rightarrow> unit call list" where
  "plan_load w = [Io_from_file (file_name w) (format w) ''pytables'']"

definition plan :: "session \<Rightarrow> unit call list" where
  "plan u =
     plan_imports @ plan_options @ plan_map (at_map u) @ plan_request (at_request u) @
     plan_plot (at_plot u) @ [Display ''SRwidgets.filesaver''] @ plan_save (at_save u) @
     [Display ''SRwidgets.fileloader''] @ plan_load (at_load u)"

text \<open>
  A computation follows a plan: it only extends the history; the calls it makes are a
  prefix of the plan, and the whole plan when it returns a value; and when it ends in
  an exception, either no call has raised and the exception is one of the notebook's
  own, or the last call made has raised this exception and no call before it has
  raised.
\<close>

definition follows :: "('f, 'a) nb \<Rightarrow> unit call list \<Rightarrow> bool" where
  "follows m p =
     (\<forall>h. \<exists>t. snd (m h) = h @ t \<and> prefix (shape t) p \<and>
        (case fst (m h) of
           Inr v \<Rightarrow> shape t = p \<and> raised_in t = []
         | Inl e \<Rightarrow>
             (raised_in t = [] \<and> internal e) \<or>
             (\<exists>pre c. t = pre @ [Ev c (Raised e)] \<and> raised_in pre = [])))"

text \<open>
  A computation yields \<open>Q\<close> and emits \<open>E\<close>: it only extends the history, every event it
  adds satisfies \<open>E\<close>, and a value it returns satisfies \<open>Q\<close>.
\<close>

definition yields :: "('f, 'a) nb \<Rightarrow> ('a \<Rightarrow> bool) \<Rightarrow> ('f event \<Rightarrow> bool) \<Rightarrow> bool" where
  "yields m Q E =
     (\<forall>h. \<exists>t. snd (m h) = h @ t \<and> list_all E t \<and>
        (case fst (m h) of Inr v \<Rightarrow> Q v | Inl e \<Rightarrow> True))"

subsection \<open>The steps of the flow\<close>

text \<open>
  The steps that the specification lists, as far as a call shows them. The parameter
  record is assembled as the argument of the call to the endpoint, so the call stands
  for both; the received table is taken into the result table by \<^verbatim>\<open>gdf.append\<close>.
  Loading the packages, initialising the service, creating the empty table, looking up
  \<^verbatim>\<open>gdf.append\<close>, showing the file choosers and asking for the version are none of the
  listed steps.
\<close>

datatype step =
    Set_widgets
  | Draw_polygons
  | Call_endpoint
  | Receive_table
  | Render_plots
  | Persist_table
  | Reload_table

fun step_index :: "step \<Rightarrow> nat" where
  "step_index Set_widgets = 1"
| "step_index Draw_polygons = 2"
| "step_index Call_endpoint = 3"
| "step_index Receive_table = 4"
| "step_index Render_plots = 5"
| "step_index Persist_table = 6"
| "step_index Reload_table = 7"

fun step_of :: "'f call \<Rightarrow> step option" where
  "step_of Ipysliderule_widgets = Some Set_widgets"
| "step_of (Widgets_VBox ns) = Some Set_widgets"
| "step_of (Ipysliderule_leaflet pr) = Some Draw_polygons"
| "step_of M_map = Some Draw_polygons"
| "step_of (Icesat2_atl06p parms asset release) = Some Call_endpoint"
| "step_of (Gdf_append g t) = Some Receive_table"
| "step_of (Plt_subplots n) = Some Render_plots"
| "step_of (Gdf_geometry_x g) = Some Render_plots"
| "step_of (Gdf_geometry_y g) = Some Render_plots"
| "step_of (Gdf_h_mean g) = Some Render_plots"
| "step_of (Ax_lookup n meth) = Some Render_plots"
| "step_of (Ax_plot n xs ys style) = Some Render_plots"
| "step_of (Ax_scatter n xs ys cs) = Some Render_plots"
| "step_of (Ax_call n meth args) = Some Render_plots"
| "step_of (Fig_call n meth args) = Some Render_plots"
| "step_of (Fig_colorbar n) = Some Render_plots"
| "step_of (Cbar_call meth args) = Some Render_plots"
| "step_of (Io_from_region poly) = Some Render_plots"
| "step_of Plt_show = Some Render_plots"
| "step_of (Io_to_file g f fm d parms rs) = Some Persist_table"
| "step_of (Io_from_file f fm d) = Some Reload_table"
| "step_of (Import s) = None"
| "step_of (Magic s) = None"
| "step_of (Icesat2_init url lv) = None"
| "step_of Icesat2_emptyframe = None"
| "step_of (Gdf_append_lookup g) = None"
| "step_of (Display s) = None"
| "step_of Icesat2_get_version = None"

definition steps :: "'f history \<Rightarrow> step list" where
  "steps h = List.map_filter (\<lambda>ev. step_of (call_of ev)) h"

text \<open>No later step runs before an earlier one.\<close>

definition in_order :: "step list \<Rightarrow> bool" where
  "in_order ss = sorted (map step_index ss)"

subsection \<open>What is drawn and what is saved\<close>

text \<open>
  The calls that create a figure or draw on one: \<^verbatim>\<open>plt.subplots\<close>, \<^verbatim>\<open>ax.plot\<close>,
  \<^verbatim>\<open>ax.scatter\<close> and \<^verbatim>\<open>f.colorbar\<close>.
\<close>

fun draws :: "'f call \<Rightarrow> bool" where
  "draws (Plt_subplots n) = True"
| "draws (Ax_plot n xs ys style) = True"
| "draws (Ax_scatter n xs ys cs) = True"
| "draws (Fig_colorbar n) = True"
| "draws _ = False"

definition drawn :: "'f history \<Rightarrow> unit call list" where
  "drawn h = filter draws (shape h)"

text \<open>The events of the save call.\<close>

fun is_save :: "'f event \<Rightarrow> bool" where
  "is_save (Ev (Io_to_file g f fm d parms rs) r) = True"
| "is_save (Ev _ r) = False"

subsection \<open>Parts of the plan\<close>

text \<open>The plan up to the call of \<^verbatim>\<open>plt.show()\<close>, and after it.\<close>

definition plan_before_show :: "session \<Rightarrow> unit call list" where
  "plan_before_show u =
     plan_imports @ plan_options @ plan_map (at_map u) @ plan_request (at_request u) @
     [Plt_subplots 1, Ax_lookup 1 ''plot'', Gdf_geometry_x (), Gdf_geometry_y (),
      Ax_plot 1 (PList []) (PList []) ''r.''] @ ground_tracks_decoration @
     [Plt_subplots 2, Ax_lookup 2 ''scatter'', Gdf_geometry_x (), Gdf_geometry_y (),
      Gdf_h_mean (),
      Ax_scatter 2 (PList []) (PList []) (PList [])] @
     plan_outlines (regions (at_plot u)) @ butlast heights_decoration"

definition plan_after_show :: "session \<Rightarrow> unit call list" where
  "plan_after_show u =
     [Display ''SRwidgets.filesaver''] @ plan_save (at_save u) @
     [Display ''SRwidgets.fileloader''] @ plan_load (at_load u)"

text \<open>
  The steps of a run over \<open>n\<close> polygons, a step that repeats without another one in
  between written once: the call to the endpoint and the receipt of its table come
  once for each polygon.
\<close>

definition flow :: "nat \<Rightarrow> step list" where
  "flow n =
     [Set_widgets, Draw_polygons] @ concat (replicate n [Call_endpoint, Receive_table]) @
     [Render_plots, Persist_table, Reload_table]"

subsection \<open>Invariants of the events\<close>

text \<open>
  The record bound to \<^verbatim>\<open>parms\<close> when the request cell has run: that of the last
  polygon, none when no polygon is drawn.
\<close>

definition last_parms :: "ui \<Rightarrow> pydict option" where
  "last_parms w = (if regions w = [] then None else Some (build_parms w (last (regions w))))"

text \<open>
  A save call is made only with \<^verbatim>\<open>parms\<close> bound, right after \<^verbatim>\<open>get_version\<close> has
  answered, and it carries the bound record with the version and the commit of that
  answer stored under \<^verbatim>\<open>version\<close> and \<^verbatim>\<open>commit\<close>. The history is the one before the
  event.
\<close>

definition saves_version :: "pydict option \<Rightarrow> 'f history \<Rightarrow> 'f event \<Rightarrow> bool" where
  "saves_version parms h ev =
     (case call_of ev of
        Io_to_file g f fm d p rs \<Rightarrow>
          (\<exists>bound ver i v c pre. parms = Some bound \<and>
             h = pre @ [Ev Icesat2_get_version (Ret_val ver)] \<and>
             subscript ver ''icesat2'' = Inr i \<and> subscript i ''version'' = Inr v \<and>
             subscript i ''commit'' = Inr c \<and>
             p = dict_set (dict_set bound ''version'' v) ''commit'' c)
      | _ \<Rightarrow> True)"

text \<open>Every event of \<open>t\<close>, added after \<open>h\<close>, satisfies \<open>E\<close> of the history before it.\<close>

fun each :: "('f history \<Rightarrow> 'f event \<Rightarrow> bool) \<Rightarrow> 'f history \<Rightarrow> 'f history \<Rightarrow> bool" where
  "each E h [] = True"
| "each E h (ev # t) = (E h ev \<and> each E (h @ [ev]) t)"

text \<open>As \<open>yields\<close>, with an invariant that reads the history before each event.\<close>

definition emits ::
  "('f, 'a) nb \<Rightarrow> ('a \<Rightarrow> bool) \<Rightarrow> ('f history \<Rightarrow> 'f event \<Rightarrow> bool) \<Rightarrow> bool" where
  "emits m Q E =
     (\<forall>h. \<exists>t. snd (m h) = h @ t \<and> each E h t \<and>
        (case fst (m h) of Inr v \<Rightarrow> Q v | Inl e \<Rightarrow> True))"

subsection \<open>Assumptions on the libraries\<close>

text \<open>
  \<^verbatim>\<open>icesat2.__emptyframe()\<close> and \<^verbatim>\<open>gdf.append(t)\<close> are functions of their arguments:
  the empty frame \<open>e0\<close> and the operation \<open>app\<close>.
\<close>

definition appends_with :: "'f ext \<Rightarrow> 'f \<Rightarrow> ('f \<Rightarrow> 'f \<Rightarrow> 'f) \<Rightarrow> bool" where
  "appends_with x e0 app =
     ((\<forall>h. world_frame x h Icesat2_emptyframe = Inr e0) \<and>
      (\<forall>h g t. world_frame x h (Gdf_append g t) = Inr (app g t)))"

text \<open>
  Modelled from the spec: the file read/write helper (\<^verbatim>\<open>io.to_file\<close>,
  \<^verbatim>\<open>io.from_file\<close> of the module \<^verbatim>\<open>sliderule.io\<close>, which is not among the sources).
  The spec says that the notebook "persists/reloads the table via a file I/O helper"
  that supports "at least two tabular storage formats". A file holds the table of the
  last successful save to its path, with the format and the driver it was written
  with; loading a path reads that table back when the format and the driver are those
  of the save, and fails otherwise.
\<close>

fun written :: "'f history \<Rightarrow> string \<Rightarrow> ('f \<times> file_format \<times> string) option" where
  "written [] path = None"
| "written (ev # h) path =
     (case written h path of
        Some s \<Rightarrow> Some s
      | None \<Rightarrow>
          (case ev of
             Ev (Io_to_file g f fm d parms rs) Ret_none \<Rightarrow>
               if f = path then Some (g, fm, d) else None
           | _ \<Rightarrow> None))"

definition spec_from_file ::
  "'f history \<Rightarrow> string \<Rightarrow> file_format \<Rightarrow> string \<Rightarrow> exn + 'f" where
  "spec_from_file h path fm d =
     (case written h path of
        None \<Rightarrow> Inl (Exn ''FileNotFoundError'' path)
      | Some (g, fm', d') \<Rightarrow>
          if fm' = fm \<and> d' = d then Inr g else Inl (Exn ''ValueError'' path))"

definition file_store :: "'f ext \<Rightarrow> bool" where
  "file_store x =
     (\<forall>h path fm d. world_frame x h (Io_from_file path fm d) = spec_from_file h path fm d)"

text \<open>
  Modelled from the spec: the table that the processing endpoint returns
  (\<^verbatim>\<open>icesat2.atl06p\<close> of the module \<^verbatim>\<open>sliderule.icesat2\<close>, which is not among the
  sources), "a resulting tabular dataset of geolocated points with an elevation
  attribute". A row is a point with its two coordinates and its elevation; a table is
  a list of rows; the columns \<^verbatim>\<open>gdf.geometry.x\<close>, \<^verbatim>\<open>gdf.geometry.y\<close> and
  \<^verbatim>\<open>gdf.h_mean\<close> hold one value for each row.
\<close>

record point =
  geometry_x :: scalar
  geometry_y :: scalar
  h_mean :: scalar

type_synonym table = "point list"

definition column :: "(point \<Rightarrow> scalar) \<Rightarrow> table \<Rightarrow> pyval" where
  "column f g = PList (map (\<lambda>row. Scalar (f row)) g)"

definition tabular :: "table ext \<Rightarrow> bool" where
  "tabular x =
     (\<forall>h g. world_val x h (Gdf_geometry_x g) = Inr (column geometry_x g) \<and>
            world_val x h (Gdf_geometry_y g) = Inr (column geometry_y g) \<and>
            world_val x h (Gdf_h_mean g) = Inr (column h_mean g))"

text \<open>
  An event that draws the table draws its columns: the scatter plot the coordinates and
  the elevations of the rows, the plot on figure 1 their coordinates.
\<close>

definition plots_columns :: "table \<Rightarrow> table event \<Rightarrow> bool" where
  "plots_columns gdf ev =
     (case call_of ev of
        Ax_scatter n xs ys cs \<Rightarrow>
          xs = column geometry_x gdf \<and> ys = column geometry_y gdf \<and> cs = column h_mean gdf
      | Ax_plot n xs ys style \<Rightarrow>
          n = 1 \<longrightarrow> xs = column geometry_x gdf \<and> ys = column geometry_y gdf
      | _ \<Rightarrow> True)"

subsection \<open>A session to run\<close>

text \<open>
  Two triangles drawn on the map, the widgets at some values, and a world in which
  every call succeeds: the endpoint returns one point for each request (marked by the
  number of calls made before it), tables are
  lists of points, files keep what is saved to them.
\<close>

definition triangle :: "int \<Rightarrow> pyval" where
  "triangle k =
     PList [PDict [(''lon'', Scalar (SInt k)), (''lat'', Scalar (SInt 0))],
            PDict [(''lon'', Scalar (SInt (k + 1))), (''lat'', Scalar (SInt 0))],
            PDict [(''lon'', Scalar (SInt k)), (''lat'', Scalar (SInt 1))],
            PDict [(''lon'', Scalar (SInt k)), (''lat'', Scalar (SInt 0))]]"

definition demo_ui :: "pyval list \<Rightarrow> ui" where
  "demo_ui rs =
     \<lparr>asset_value = SStr ''nsidc-s3'', release_value = SStr ''004'',
      surface_type_index = SInt 0, length_value = SInt 40, step_value = SInt 20,
      confidence_value = SInt 4, land_class_value = [Scalar (SStr ''atl08_ground'')],
      iteration_value = SInt 1, spread_value = SFloat 5 2, count_value = SInt 10,
      window_value = SFloat 3 0, sigma_value = SFloat 5 0,
      projection_value = SStr ''Global'', file_name = ''ATL06-SR.h5'', format = HDF5,
      regions = rs\<rparr>"

definition demo_session :: "pyval list \<Rightarrow> session" where
  "demo_session rs =
     \<lparr>at_map = demo_ui [], at_request = demo_ui rs, at_plot = demo_ui rs,
      at_save = demo_ui rs, at_load = demo_ui rs\<rparr>"

definition two_triangles :: session where
  "two_triangles = demo_session [triangle 0, triangle 5]"

definition one_triangle :: session where
  "one_triangle = demo_session [triangle 0]"

definition no_triangle :: session where
  "no_triangle = demo_session []"

definition demo_version :: pyval where
  "demo_version =
     PDict [(''icesat2'',
       PDict [(''version'', Scalar (SStr ''v1.0.7'')), (''commit'', Scalar (SStr ''abc123''))])]"

definition demo_point :: "nat \<Rightarrow> point" where
  "demo_point n = \<lparr>geometry_x = SInt (int n), geometry_y = SInt 0, h_mean = SFloat 1 10\<rparr>"

definition demo_frame :: "table history \<Rightarrow> table call \<Rightarrow> exn + table" where
  "demo_frame h c =
     (case c of
        Icesat2_emptyframe \<Rightarrow> Inr []
      | Icesat2_atl06p parms asset release \<Rightarrow> Inr [demo_point (length h)]
      | Gdf_append g t \<Rightarrow> Inr (g @ t)
      | Io_from_file path fm d \<Rightarrow> spec_from_file h path fm d
      | _ \<Rightarrow> Inl (TypeError ''not a table''))"

definition demo_val :: "table history \<Rightarrow> table call \<Rightarrow> exn + pyval" where
  "demo_val h c =
     (case c of
        Gdf_geometry_x g \<Rightarrow> Inr (column geometry_x g)
      | Gdf_geometry_y g \<Rightarrow> Inr (column geometry_y g)
      | Gdf_h_mean g \<Rightarrow> Inr (column h_mean g)
      | Icesat2_get_version \<Rightarrow> Inr demo_version
      | _ \<Rightarrow> Inl (TypeError ''not a value''))"

definition coordinate :: "string \<Rightarrow> pyval \<Rightarrow> pyval" where
  "coordinate k poly =
     (case poly of
        PList vertices \<Rightarrow>
          PList (map (\<lambda>vertex. case subscript vertex k of Inr v \<Rightarrow> v | Inl e \<Rightarrow> Scalar SNone)
            vertices)
      | _ \<Rightarrow> PList [])"

definition demo_pair :: "table history \<Rightarrow> table call \<Rightarrow> exn + pyval \<times> pyval" where
  "demo_pair h c =
     (case c of
        Io_from_region poly \<Rightarrow> Inr (coordinate ''lon'' poly, coordinate ''lat'' poly)
      | _ \<Rightarrow> Inl (TypeError ''not a pair''))"

definition demo_world :: "table ext" where
  "demo_world =
     \<lparr>world_unit = (\<lambda>h c. None), world_frame = demo_frame, world_val = demo_val,
      world_pair = demo_pair\<rparr>"

text \<open>The same world with a processing endpoint that is out of service.\<close>

definition service_down :: exn where
  "service_down = Exn ''RuntimeError'' ''service unavailable''"

definition down_world :: "table ext" where
  "down_world =
     demo_world\<lparr>world_frame := (\<lambda>h c.
       case c of Icesat2_atl06p parms asset release \<Rightarrow> Inl service_down
       | _ \<Rightarrow> demo_frame h c)\<rparr>"

section \<open>Properties\<close>

subsection \<open>Every computation follows its plan\<close>

lemma raised_in_simps [simp]:
  "raised_in [] = []"
  "raised_in (t @ t') = raised_in t @ raised_in t'"
  "raised_in [Ev c (Raised e)] = [e]"
  "raised_in [Ev c Ret_none] = []"
  "raised_in [Ev c (Ret_frame g)] = []"
  "raised_in [Ev c (Ret_val v)] = []"
  "raised_in [Ev c (Ret_pair a b)] = []"
  by (simp_all add: raised_in_def map_filter_def)

lemma shape_simps [simp]:
  "shape [] = []"
  "shape (t @ t') = shape t @ shape t'"
  "shape [Ev c r] = [blank c]"
  by (simp_all add: shape_def)

lemma follows_ret: "follows (ret v) []"
  by (simp add: follows_def ret_def)

lemma follows_raise: "internal e \<Longrightarrow> follows (raise e) p"
  by (simp add: follows_def raise_def)

lemma follows_call_unit: "follows (call_unit x c) [blank c]"
  by (auto simp: follows_def call_unit_def split: option.splits)

lemma follows_call_frame: "follows (call_frame x c) [blank c]"
  by (auto simp: follows_def call_frame_def split: sum.splits)

lemma follows_call_val: "follows (call_val x c) [blank c]"
  by (auto simp: follows_def call_val_def split: sum.splits)

lemma follows_call_pair: "follows (call_pair x c) [blank c]"
  by (auto simp: follows_def call_pair_def split: sum.splits prod.splits)

lemma follows_bnd:
  assumes m: "follows m p" and k: "\<And>v. follows (k v) q"
  shows "follows (bnd m k) (p @ q)"
  unfolding follows_def
proof
  fix h
  from m obtain t where t: "snd (m h) = h @ t" "prefix (shape t) p"
    and r: "case fst (m h) of
           Inr v \<Rightarrow> shape t = p \<and> raised_in t = []
         | Inl e \<Rightarrow>
             (raised_in t = [] \<and> internal e) \<or>
             (\<exists>pre c. t = pre @ [Ev c (Raised e)] \<and> raised_in pre = [])"
    unfolding follows_def by blast
  show "\<exists>t. snd (bnd m k h) = h @ t \<and> prefix (shape t) (p @ q) \<and>
        (case fst (bnd m k h) of
           Inr v \<Rightarrow> shape t = p @ q \<and> raised_in t = []
         | Inl e \<Rightarrow>
             (raised_in t = [] \<and> internal e) \<or>
             (\<exists>pre c. t = pre @ [Ev c (Raised e)] \<and> raised_in pre = []))"
  proof (cases "fst (m h)")
    case (Inl e)
    then have "bnd m k h = (Inl e, h @ t)"
      using t(1) by (cases "m h") (simp add: bnd_def)
    then show ?thesis using t r Inl by auto
  next
    case (Inr v)
    then have b: "bnd m k h = k v (h @ t)"
      using t(1) by (cases "m h") (simp add: bnd_def)
    from k [of v] obtain t' where t': "snd (k v (h @ t)) = (h @ t) @ t'" "prefix (shape t') q"
      and r': "case fst (k v (h @ t)) of
           Inr v \<Rightarrow> shape t' = q \<and> raised_in t' = []
         | Inl e \<Rightarrow>
             (raised_in t' = [] \<and> internal e) \<or>
             (\<exists>pre c. t' = pre @ [Ev c (Raised e)] \<and> raised_in pre = [])"
      unfolding follows_def by blast
    from r Inr have s: "shape t = p" "raised_in t = []" by simp_all
    show ?thesis
    proof (intro exI [of _ "t @ t'"] conjI)
      show "snd (bnd m k h) = h @ t @ t'" using b t' by simp
      show "prefix (shape (t @ t')) (p @ q)" using s t' by simp
      show "case fst (bnd m k h) of
           Inr v \<Rightarrow> shape (t @ t') = p @ q \<and> raised_in (t @ t') = []
         | Inl e \<Rightarrow>
             (raised_in (t @ t') = [] \<and> internal e) \<or>
             (\<exists>pre c. t @ t' = pre @ [Ev c (Raised e)] \<and> raised_in pre = [])"
      proof (cases "fst (k v (h @ t))")
        case (Inl e)
        with r' have "(raised_in t' = [] \<and> internal e) \<or>
             (\<exists>pre c. t' = pre @ [Ev c (Raised e)] \<and> raised_in pre = [])" by simp
        then show ?thesis
        proof
          assume "raised_in t' = [] \<and> internal e"
          then show ?thesis using b Inl s by simp
        next
          assume "\<exists>pre c. t' = pre @ [Ev c (Raised e)] \<and> raised_in pre = []"
          then obtain pre c where "t' = pre @ [Ev c (Raised e)]" "raised_in pre = []" by blast
          then have "t @ t' = (t @ pre) @ [Ev c (Raised e)] \<and> raised_in (t @ pre) = []"
            using s by simp
          then show ?thesis using b Inl by (simp del: append_assoc)
        qed
      next
        case (Inr w)
        with r' show ?thesis using b s by simp
      qed
    qed
  qed
qed

lemma follows_bnd1:
  "follows m [c] \<Longrightarrow> (\<And>v. follows (k v) q) \<Longrightarrow> follows (bnd m k) (c # q)"
  using follows_bnd [of m "[c]" k q] by simp

lemma follows_calls: "follows (calls x cs) (map blank cs)"
  by (induction cs) (auto intro: follows_ret follows_bnd1 follows_call_unit)

lemma subscript_internal: "subscript v k = Inl e \<Longrightarrow> internal e"
  by (auto simp: subscript_def internal_def KeyError_def TypeError_def split: pyval.splits option.splits)

lemma follows_pure_bnd:
  "(\<And>v. r = Inr v \<Longrightarrow> follows (k v) p) \<Longrightarrow> (\<And>e. r = Inl e \<Longrightarrow> internal e) \<Longrightarrow>
   follows (bnd (pure_step r) k) p"
  by (cases r) (auto simp: follows_def bnd_def pure_step_def)

lemma blank_simps [simp]:
  "blank (Import s) = Import s"
  "blank (Magic s) = Magic s"
  "blank (Icesat2_init url lv) = Icesat2_init url lv"
  "blank Ipysliderule_widgets = Ipysliderule_widgets"
  "blank (Widgets_VBox ns) = Widgets_VBox ns"
  "blank (Ipysliderule_leaflet pr) = Ipysliderule_leaflet pr"
  "blank M_map = M_map"
  "blank Icesat2_emptyframe = Icesat2_emptyframe"
  "blank (Icesat2_atl06p parms asset rel) = Icesat2_atl06p parms asset rel"
  "blank (Gdf_append_lookup g) = Gdf_append_lookup ()"
  "blank (Gdf_append g t) = Gdf_append () ()"
  "blank (Ax_lookup n meth) = Ax_lookup n meth"
  "blank (Plt_subplots n) = Plt_subplots n"
  "blank (Gdf_geometry_x g) = Gdf_geometry_x ()"
  "blank (Gdf_geometry_y g) = Gdf_geometry_y ()"
  "blank (Gdf_h_mean g) = Gdf_h_mean ()"
  "blank (Ax_plot n xs ys st) = Ax_plot n (PList []) (PList []) st"
  "blank (Ax_scatter n xs ys cs) = Ax_scatter n (PList []) (PList []) (PList [])"
  "blank (Ax_call n meth args) = Ax_call n meth args"
  "blank (Fig_call n meth args) = Fig_call n meth args"
  "blank (Fig_colorbar n) = Fig_colorbar n"
  "blank (Cbar_call meth args) = Cbar_call meth args"
  "blank (Io_from_region poly) = Io_from_region poly"
  "blank Plt_show = Plt_show"
  "blank (Display s) = Display s"
  "blank Icesat2_get_version = Icesat2_get_version"
  "blank (Io_to_file g f fm d pd rs) = Io_to_file () f fm d [] rs"
  "blank (Io_from_file f fm d) = Io_from_file f fm d"
  by (simp_all add: blank_def)

lemma follows_unit: "blank c = c' \<Longrightarrow> follows (call_unit x c) [c']"
  using follows_call_unit by blast

lemma follows_frame: "blank c = c' \<Longrightarrow> follows (call_frame x c) [c']"
  using follows_call_frame by blast

lemma follows_val: "blank c = c' \<Longrightarrow> follows (call_val x c) [c']"
  using follows_call_val by blast

lemma follows_pair: "blank c = c' \<Longrightarrow> follows (call_pair x c) [c']"
  using follows_call_pair by blast

lemma follows_request_loop:
  "follows (request_loop x w (asset_value w) (release_value w) ps st) (plan_loop w ps)"
proof (induction ps arbitrary: st)
  case Nil
  show ?case by (simp add: plan_loop_def follows_ret)
next
  case (Cons poly ps)
  have "follows (request_loop x w (asset_value w) (release_value w) (poly # ps) st)
     (Gdf_append_lookup () #
      Icesat2_atl06p (build_parms w poly) (asset_value w) (release_value w) #
      Gdf_append () () # plan_loop w ps)"
    unfolding request_loop.simps Let_def
    by (intro follows_bnd1 Cons.IH follows_frame follows_unit) simp_all
  then show ?case by (simp add: plan_loop_def)
qed

lemma follows_cell_request: "follows (cell_request x w) (plan_request w)"
  unfolding cell_request_def plan_request_def Let_def
  by (intro follows_bnd1 follows_request_loop follows_frame) simp

lemma follows_outline_loop: "follows (outline_loop x ps) (plan_outlines ps)"
proof (induction ps)
  case Nil
  show ?case by (simp add: plan_outlines_def follows_ret)
next
  case (Cons poly ps)
  have "follows (outline_loop x (poly # ps))
     (Io_from_region poly # Ax_plot 2 (PList []) (PList []) ''r'' # plan_outlines ps)"
    unfolding outline_loop.simps
    by (intro follows_bnd1 follows_pair) (auto intro!: follows_bnd1 follows_unit Cons.IH)
  then show ?case by (simp add: plan_outlines_def)
qed

lemma map_blank_ground: "map blank (ground_tracks_decoration :: 'f call list) = ground_tracks_decoration"
  by (simp add: ground_tracks_decoration_def)

lemma map_blank_heights: "map blank (heights_decoration :: 'f call list) = heights_decoration"
  by (simp add: heights_decoration_def)

lemma follows_plot_ground_tracks:
  "follows (plot_ground_tracks x gdf)
     ([Plt_subplots 1, Ax_lookup 1 ''plot'', Gdf_geometry_x (), Gdf_geometry_y (),
      Ax_plot 1 (PList []) (PList []) ''r.''] @ ground_tracks_decoration)"
  unfolding plot_ground_tracks_def append.simps
  apply (intro follows_bnd1 follows_unit follows_val)
         apply simp_all
  using follows_calls [of x ground_tracks_decoration] by (simp add: map_blank_ground)

lemma follows_plot_heights:
  "follows (plot_heights x w gdf)
     ([Plt_subplots 2, Ax_lookup 2 ''scatter'', Gdf_geometry_x (), Gdf_geometry_y (),
      Gdf_h_mean (),
      Ax_scatter 2 (PList []) (PList []) (PList [])] @
     plan_outlines (regions w) @ heights_decoration)"
  unfolding plot_heights_def append.simps
  apply (intro follows_bnd1 follows_unit follows_val follows_bnd follows_outline_loop)
         apply simp_all
  using follows_calls [of x heights_decoration] by (simp add: map_blank_heights)

lemma follows_cell_plot: "follows (cell_plot x w gdf) (plan_plot w)"
  unfolding cell_plot_def plan_plot_def
  using follows_bnd [OF follows_plot_ground_tracks, of "\<lambda>_. plot_heights x w gdf", OF follows_plot_heights]
  by simp

lemma follows_cell_save: "follows (cell_save x w gdf parms) (plan_save w)"
  unfolding cell_save_def plan_save_def Let_def
  apply (rule follows_bnd1)
   apply (rule follows_val, simp)
  apply (rule follows_pure_bnd)
   apply (rule follows_pure_bnd)
    apply (cases parms)
     apply (simp add: follows_raise internal_def NameError_def)
    apply simp
    apply (rule follows_pure_bnd)
     apply (rule follows_pure_bnd)
      apply (rule follows_bnd [of _ "[c]" _ "[]" for c, simplified])
       apply (rule follows_unit, simp)
      apply (rule follows_ret)
     apply (auto dest: subscript_internal)
  done

lemma follows_calls_as: "map blank cs = cs' \<Longrightarrow> follows (calls x cs) cs'"
  using follows_calls by blast

lemma follows_cell_imports: "follows (cell_imports x) plan_imports"
  unfolding cell_imports_def plan_imports_def by (rule follows_calls_as) simp

lemma follows_cell_options: "follows (cell_options x) plan_options"
  unfolding cell_options_def plan_options_def by (rule follows_calls_as) simp

lemma follows_cell_map: "follows (cell_map x w) (plan_map w)"
  unfolding cell_map_def plan_map_def by (rule follows_calls_as) simp

lemma follows_notebook: "follows (notebook x u) (plan u)"
  unfolding notebook_def plan_def
  apply (rule follows_bnd [OF follows_cell_imports])
  apply (rule follows_bnd [OF follows_cell_options])
  apply (rule follows_bnd [OF follows_cell_map])
  apply (rule follows_bnd [OF follows_cell_request])
  apply (simp only: split_paired_all prod.case)
  apply (rule follows_bnd [OF follows_cell_plot])
  apply (rule follows_bnd)
   apply (simp add: cell_filesaver_def follows_unit)
  apply (rule follows_bnd [OF follows_cell_save])
  apply (rule follows_bnd)
   apply (simp add: cell_fileloader_def follows_unit)
  apply (simp add: cell_load_def plan_load_def follows_frame)
  done

text \<open>A run of the whole notebook in a fresh kernel, read off \<open>follows_notebook\<close>.\<close>

lemma run_follows:
  assumes "notebook x u [] = (r, h)"
  shows "prefix (shape h) (plan u)"
    and "\<And>g. r = Inr g \<Longrightarrow> shape h = plan u \<and> raised_in h = []"
    and "\<And>e. r = Inl e \<Longrightarrow> (raised_in h = [] \<and> internal e) \<or>
           (\<exists>pre c. h = pre @ [Ev c (Raised e)] \<and> raised_in pre = [])"
proof -
  from follows_notebook [of x u] obtain t where
    t: "snd (notebook x u []) = [] @ t" "prefix (shape t) (plan u)"
      "case fst (notebook x u []) of
           Inr v \<Rightarrow> shape t = plan u \<and> raised_in t = []
         | Inl e \<Rightarrow>
             (raised_in t = [] \<and> internal e) \<or>
             (\<exists>pre c. t = pre @ [Ev c (Raised e)] \<and> raised_in pre = [])"
    unfolding follows_def by blast
  from t(1) assms have [simp]: "t = h" by simp
  show "prefix (shape h) (plan u)" using t(2) by simp
  show "\<And>g. r = Inr g \<Longrightarrow> shape h = plan u \<and> raised_in h = []"
    using t(3) assms by simp
  show "\<And>e. r = Inl e \<Longrightarrow> (raised_in h = [] \<and> internal e) \<or>
           (\<exists>pre c. h = pre @ [Ev c (Raised e)] \<and> raised_in pre = [])"
    using t(3) assms by simp
qed

lemma raised_in_mem: "Ev c (Raised e) \<in> set t \<Longrightarrow> e \<in> set (raised_in t)"
  by (induction t) (auto simp: raised_in_def map_filter_def)

lemma run_pair: "notebook x u [] = (fst (notebook x u []), snd (notebook x u []))"
  by simp

subsection \<open>Exceptions\<close>

text \<open>
  Claim C8. No operation of the notebook catches, transforms or recovers from an
  error. In every run of the notebook, for every world: an exception that an external
  call raises is the result of the run, unchanged, and the call that raised it is the
  last call made, no call before it having raised. And an exception that ends a run
  is either the one the last call raised or one that Python raises in a statement of
  the notebook itself (an unbound name, a failed subscription).
\<close>

theorem exceptions_propagate:
  assumes run: "notebook x u [] = (r, h)"
  shows "(Ev c (Raised e) \<in> set h \<longrightarrow>
            r = Inl e \<and> last h = Ev c (Raised e) \<and> raised_in (butlast h) = []) \<and>
         (r = Inl e' \<longrightarrow>
            internal e' \<or> (\<exists>c'. h \<noteq> [] \<and> last h = Ev c' (Raised e')))"
proof (intro conjI impI)
  assume ev: "Ev c (Raised e) \<in> set h"
  show "r = Inl e"
  proof (cases r)
    case (Inr g)
    with run_follows(2) [OF run] have "raised_in h = []" by simp
    with raised_in_mem [OF ev] show ?thesis by simp
  next
    case (Inl e'')
    from run_follows(3) [OF run Inl] raised_in_mem [OF ev]
    obtain pre c' where h: "h = pre @ [Ev c' (Raised e'')]" and pre: "raised_in pre = []"
      by auto
    from pre have "Ev c (Raised e) \<notin> set pre" using raised_in_mem by fastforce
    with ev h have "e'' = e" by auto
    with Inl show ?thesis by simp
  qed
  then obtain pre c' where h: "h = pre @ [Ev c' (Raised e)]" and pre: "raised_in pre = []"
    using run_follows(3) [OF run] raised_in_mem [OF ev] by auto
  from pre have "Ev c (Raised e) \<notin> set pre" using raised_in_mem by fastforce
  with ev h have "c' = c" by auto
  with h pre show "last h = Ev c (Raised e)" and "raised_in (butlast h) = []" by simp_all
next
  assume "r = Inl e'"
  from run_follows(3) [OF run this]
  show "internal e' \<or> (\<exists>c'. h \<noteq> [] \<and> last h = Ev c' (Raised e'))" by auto
qed

theorem exceptions_propagate_witness:
  "Ev (Icesat2_atl06p (build_parms (demo_ui [triangle 0]) (triangle 0))
         (SStr ''nsidc-s3'') (SStr ''004''))
      (Raised service_down) \<in> set (snd (notebook down_world (demo_session [triangle 0]) [])) \<and>
   fst (notebook down_world (demo_session [triangle 0]) []) = Inl service_down \<and>
   last (snd (notebook down_world (demo_session [triangle 0]) [])) =
     Ev (Icesat2_atl06p (build_parms (demo_ui [triangle 0]) (triangle 0))
         (SStr ''nsidc-s3'') (SStr ''004''))
      (Raised service_down) \<and>
   raised_in (butlast (snd (notebook down_world (demo_session [triangle 0]) []))) = []"
proof -
  have ev: "Ev (Icesat2_atl06p (build_parms (demo_ui [triangle 0]) (triangle 0))
         (SStr ''nsidc-s3'') (SStr ''004''))
      (Raised service_down) \<in> set (snd (notebook down_world (demo_session [triangle 0]) []))"
    by code_simp
  from exceptions_propagate [OF run_pair, where x = down_world
      and u = "demo_session [triangle 0]" and e = service_down] ev
  show ?thesis by simp
qed

subsection \<open>Reading a run off its plan\<close>

lemma map_filter_append: "List.map_filter f (xs @ ys) = List.map_filter f xs @ List.map_filter f ys"
  by (simp add: map_filter_def)

lemma map_filter_prefix: "prefix xs ys \<Longrightarrow> prefix (List.map_filter f xs) (List.map_filter f ys)"
  by (auto simp: prefix_def map_filter_append)

lemma map_filter_shape:
  "(\<And>c. f' (blank c) = f c) \<Longrightarrow>
   List.map_filter (\<lambda>ev. f (call_of ev)) h = List.map_filter f' (shape h)"
  by (induction h) (simp_all add: map_filter_def shape_def)

lemma request_of_blank: "request_of (blank c) = request_of c"
  by (cases c) simp_all

lemma figure_of_blank: "figure_of (blank c) = figure_of c"
  by (cases c) simp_all

lemma step_of_blank: "step_of (blank c) = step_of c"
  by (cases c) simp_all

lemma requests_plan_loop: "List.map_filter request_of (plan_loop w ps) = map (build_parms w) ps"
  by (induction ps) (simp_all add: plan_loop_def map_filter_def)

lemma requests_plan_outlines: "List.map_filter request_of (plan_outlines ps) = []"
  by (induction ps) (simp_all add: plan_outlines_def map_filter_def)

lemma requests_plan:
  "List.map_filter request_of (plan u) = map (build_parms (at_request u)) (regions (at_request u))"
  by (simp add: plan_def map_filter_append requests_plan_loop requests_plan_outlines
      plan_imports_def plan_options_def plan_map_def plan_request_def plan_plot_def
      plan_save_def plan_load_def ground_tracks_decoration_def heights_decoration_def
      map_filter_simps)

lemma dict_literal_parms:
  "build_parms w poly =
     [(''poly'', poly),
      (''srt'', Scalar (surface_type_index w)),
      (''len'', Scalar (length_value w)),
      (''res'', Scalar (step_value w)),
      (''cnf'', Scalar (confidence_value w)),
      (''atl08_class'', PList (land_class_value w)),
      (''maxi'', Scalar (iteration_value w)),
      (''ats'', Scalar (spread_value w)),
      (''cnt'', Scalar (count_value w)),
      (''H_min_win'', Scalar (window_value w)),
      (''sigma_r_max'', Scalar (sigma_value w))]"
  by (simp add: build_parms_def dict_literal_def)

lemma event_in_shape: "Ev c rsp \<in> set h \<Longrightarrow> blank c \<in> set (shape h)"
  by (force simp: shape_def)

lemma run_call_planned:
  assumes "notebook x u [] = (r, h)" and "Ev c rsp \<in> set h"
  shows "blank c \<in> set (plan u)"
  using set_mono_prefix [OF run_follows(1) [OF assms(1)]] event_in_shape [OF assms(2)] by blast

lemma shape_in_event: "c' \<in> set (shape h) \<Longrightarrow> \<exists>c rsp. Ev c rsp \<in> set h \<and> blank c = c'"
  unfolding shape_def by (metis (no_types, lifting) call_of.elims imageE list.set_map)

lemma set_plan_loop:
  "set (plan_loop w ps) \<subseteq>
     (\<lambda>poly. Icesat2_atl06p (build_parms w poly) (asset_value w) (release_value w)) ` set ps \<union>
     {Gdf_append_lookup (), Gdf_append () ()}"
  by (auto simp: plan_loop_def)

lemma set_plan_outlines:
  "set (plan_outlines ps) \<subseteq> Io_from_region ` set ps \<union> {Ax_plot 2 (PList []) (PList []) ''r''}"
  by (auto simp: plan_outlines_def)

lemma save_planned:
  "Io_to_file g f fm d p rs \<in> set (plan u) \<Longrightarrow>
   f = file_name (at_save u) \<and> fm = format (at_save u) \<and> d = ''pytables'' \<and> rs = regions (at_save u)"
  using set_plan_loop [of "at_request u" "regions (at_request u)"]
    set_plan_outlines [of "regions (at_plot u)"]
  by (auto simp: plan_def plan_imports_def plan_options_def plan_map_def plan_request_def
      plan_plot_def plan_save_def plan_load_def ground_tracks_decoration_def
      heights_decoration_def)

lemma load_planned:
  "Io_from_file f fm d \<in> set (plan u) \<Longrightarrow>
   f = file_name (at_load u) \<and> fm = format (at_load u) \<and> d = ''pytables''"
  using set_plan_loop [of "at_request u" "regions (at_request u)"]
    set_plan_outlines [of "regions (at_plot u)"]
  by (auto simp: plan_def plan_imports_def plan_options_def plan_map_def plan_request_def
      plan_plot_def plan_save_def plan_load_def ground_tracks_decoration_def
      heights_decoration_def)

lemma blank_save: "blank c = Io_to_file g f fm d p rs \<Longrightarrow> \<exists>g' p'. c = Io_to_file g' f fm d p' rs"
  by (cases c) simp_all

lemma blank_load: "blank c = Io_from_file f fm d \<Longrightarrow> c = Io_from_file f fm d"
  by (cases c) simp_all

subsection \<open>The parameter record and the requests\<close>

lemma run_requests:
  assumes "notebook x u [] = (r, h)"
  shows "prefix (requests h) (map (build_parms (at_request u)) (regions (at_request u)))"
    and "\<And>g. r = Inr g \<Longrightarrow> requests h = map (build_parms (at_request u)) (regions (at_request u))"
proof -
  have eq: "requests h = List.map_filter request_of (shape h)"
    unfolding requests_def by (rule map_filter_shape) (rule request_of_blank)
  show "prefix (requests h) (map (build_parms (at_request u)) (regions (at_request u)))"
    using map_filter_prefix [OF run_follows(1) [OF assms], of request_of]
    by (simp add: eq requests_plan)
  show "\<And>g. r = Inr g \<Longrightarrow> requests h = map (build_parms (at_request u)) (regions (at_request u))"
    using run_follows(2) [OF assms] by (simp add: eq requests_plan)
qed

lemma pyval_kinds: "is_scalar v \<or> is_list v \<or> is_mapping v"
  by (cases v) (simp_all add: is_scalar_def is_list_def is_mapping_def)

lemma is_scalar_Scalar [simp]: "is_scalar (Scalar s)"
  by (simp add: is_scalar_def)

lemma is_list_PList [simp]: "is_list (PList vs)"
  by (simp add: is_list_def)

text \<open>
  Claim C1. For every polygon drawn on the map, the parameter record that is assembled
  and submitted to the processing endpoint is a mapping from string keys to scalars,
  lists or nested mappings: the polygon under \<^verbatim>\<open>poly\<close>, the surface type, the segment
  length, the step distance, the confidence level, the classification list, the
  iteration cap and the spread, count, window and sigma thresholds. In every run the
  records transmitted are those of the drawn polygons, in drawing order: all of them
  when the run completes, the first of them when it ends in an exception.
\<close>

theorem parameter_record:
  assumes "notebook x u [] = (r, h)"
  shows "prefix (requests h) (map (build_parms (at_request u)) (regions (at_request u))) \<and>
     (r = Inr g \<longrightarrow>
        requests h = map (build_parms (at_request u)) (regions (at_request u))) \<and>
     build_parms w poly =
       [(''poly'', poly),
        (''srt'', Scalar (surface_type_index w)),
        (''len'', Scalar (length_value w)),
        (''res'', Scalar (step_value w)),
        (''cnf'', Scalar (confidence_value w)),
        (''atl08_class'', PList (land_class_value w)),
        (''maxi'', Scalar (iteration_value w)),
        (''ats'', Scalar (spread_value w)),
        (''cnt'', Scalar (count_value w)),
        (''H_min_win'', Scalar (window_value w)),
        (''sigma_r_max'', Scalar (sigma_value w))] \<and>
     distinct (map fst (build_parms w poly)) \<and>
     list_all (\<lambda>(k, v). is_scalar v \<or> is_list v \<or> is_mapping v) (build_parms w poly) \<and>
     list_all (\<lambda>(k, v). is_scalar v) (filter (\<lambda>(k, v). k \<notin> {''poly'', ''atl08_class''}) (build_parms w poly)) \<and>
     map_option is_list (map_of (build_parms w poly) ''atl08_class'') = Some True \<and>
     map_of (build_parms w poly) ''poly'' = Some poly"
  using run_requests [OF assms]
  by (simp add: dict_literal_parms pyval_kinds)

theorem parameter_record_witness:
  "fst (notebook demo_world (demo_session [triangle 0, triangle 5]) []) =
     Inr [demo_point 15, demo_point 18] \<and>
   requests (snd (notebook demo_world (demo_session [triangle 0, triangle 5]) [])) =
     [build_parms (demo_ui [triangle 0, triangle 5]) (triangle 0),
      build_parms (demo_ui [triangle 0, triangle 5]) (triangle 5)] \<and>
   map fst (build_parms (demo_ui [triangle 0, triangle 5]) (triangle 0)) =
     [''poly'', ''srt'', ''len'', ''res'', ''cnf'', ''atl08_class'', ''maxi'', ''ats'', ''cnt'',
      ''H_min_win'', ''sigma_r_max'']"
proof -
  have r: "fst (notebook demo_world (demo_session [triangle 0, triangle 5]) []) =
     Inr [demo_point 15, demo_point 18]"
    by code_simp
  have u: "at_request (demo_session [triangle 0, triangle 5]) = demo_ui [triangle 0, triangle 5]"
    "regions (demo_ui [triangle 0, triangle 5]) = [triangle 0, triangle 5]"
    by (simp_all add: demo_session_def demo_ui_def)
  from parameter_record [OF run_pair, where x = demo_world
      and u = "demo_session [triangle 0, triangle 5]"
      and w = "demo_ui [triangle 0, triangle 5]" and poly = "triangle 0"] r u
  show ?thesis by simp
qed

subsection \<open>The file helper\<close>

lemma file_format_cases: "fm = HDF5 \<or> fm = NetCDF"
  by (cases fm) simp_all

text \<open>
  Claim C4. The save step (\<^verbatim>\<open>io.to_file\<close>) and the load step (\<^verbatim>\<open>io.from_file\<close>) both
  take a format argument, which selects between the HDF5 and the netCDF format, and the
  same driver \<^verbatim>\<open>pytables\<close>. In every run, a save call carries the file and the format
  that the widgets hold when the save cell runs, a load call those that the widgets
  hold when the load cell runs; a run that completes has made both calls.
\<close>

theorem file_formats:
  assumes run: "notebook x u [] = (r, h)"
  shows "(Ev (Io_to_file g f fm d p rs) rsp \<in> set h \<longrightarrow>
            f = file_name (at_save u) \<and> fm = format (at_save u) \<and> d = ''pytables'' \<and>
            (fm = HDF5 \<or> fm = NetCDF)) \<and>
         (Ev (Io_from_file f' fm' d') rsp' \<in> set h \<longrightarrow>
            f' = file_name (at_load u) \<and> fm' = format (at_load u) \<and> d' = ''pytables'' \<and>
            (fm' = HDF5 \<or> fm' = NetCDF)) \<and>
         (r = Inr g' \<longrightarrow>
            (\<exists>gdf parms a. Ev (Io_to_file gdf (file_name (at_save u)) (format (at_save u))
                ''pytables'' parms (regions (at_save u))) a \<in> set h) \<and>
            (\<exists>a. Ev (Io_from_file (file_name (at_load u)) (format (at_load u)) ''pytables'') a
                \<in> set h))"
proof -
  have a: "f = file_name (at_save u) \<and> fm = format (at_save u) \<and> d = ''pytables'' \<and>
            (fm = HDF5 \<or> fm = NetCDF)"
    if "Ev (Io_to_file g f fm d p rs) rsp \<in> set h"
  proof -
    from run_call_planned [OF run that] have "Io_to_file () f fm d [] rs \<in> set (plan u)"
      by simp
    from save_planned [OF this] show ?thesis by (simp add: file_format_cases)
  qed
  have b: "f' = file_name (at_load u) \<and> fm' = format (at_load u) \<and> d' = ''pytables'' \<and>
            (fm' = HDF5 \<or> fm' = NetCDF)"
    if "Ev (Io_from_file f' fm' d') rsp' \<in> set h"
  proof -
    from run_call_planned [OF run that] have "Io_from_file f' fm' d' \<in> set (plan u)" by simp
    from load_planned [OF this] show ?thesis by (simp add: file_format_cases)
  qed
  have c: "(\<exists>gdf parms a. Ev (Io_to_file gdf (file_name (at_save u)) (format (at_save u))
                ''pytables'' parms (regions (at_save u))) a \<in> set h) \<and>
            (\<exists>a. Ev (Io_from_file (file_name (at_load u)) (format (at_load u)) ''pytables'') a
                \<in> set h)"
    if "r = Inr g'"
  proof -
    from that run_follows(2) [OF run] have s: "shape h = plan u" by simp
    have "Io_to_file () (file_name (at_save u)) (format (at_save u)) ''pytables'' []
        (regions (at_save u)) \<in> set (shape h)"
      unfolding s by (simp add: plan_def plan_save_def)
    from shape_in_event [OF this] blank_save
    have 1: "\<exists>gdf parms a. Ev (Io_to_file gdf (file_name (at_save u)) (format (at_save u))
                  ''pytables'' parms (regions (at_save u))) a \<in> set h" by metis
    have "Io_from_file (file_name (at_load u)) (format (at_load u)) ''pytables'' \<in> set (shape h)"
      unfolding s by (simp add: plan_def plan_load_def)
    from shape_in_event [OF this] blank_load
    have 2: "\<exists>a. Ev (Io_from_file (file_name (at_load u)) (format (at_load u)) ''pytables'') a
                  \<in> set h" by metis
    from 1 2 show ?thesis by simp
  qed
  from a b c show ?thesis by blast
qed

theorem file_formats_witness:
  "Ev (Io_to_file [demo_point 15, demo_point 18] ''ATL06-SR.h5'' HDF5 ''pytables''
        (dict_set (dict_set (build_parms (demo_ui [triangle 0, triangle 5]) (triangle 5))
           ''version'' (Scalar (SStr ''v1.0.7''))) ''commit'' (Scalar (SStr ''abc123'')))
        [triangle 0, triangle 5]) Ret_none
     \<in> set (snd (notebook demo_world two_triangles [])) \<and>
   Ev (Io_from_file ''ATL06-SR.h5'' HDF5 ''pytables'') (Ret_frame [demo_point 15, demo_point 18])
     \<in> set (snd (notebook demo_world two_triangles [])) \<and>
   file_name (at_save two_triangles) = ''ATL06-SR.h5'' \<and>
   format (at_save two_triangles) = HDF5 \<and>
   file_name (at_load two_triangles) = ''ATL06-SR.h5'' \<and>
   format (at_load two_triangles) = HDF5"
proof -
  have s: "Ev (Io_to_file [demo_point 15, demo_point 18] ''ATL06-SR.h5'' HDF5 ''pytables''
        (dict_set (dict_set (build_parms (demo_ui [triangle 0, triangle 5]) (triangle 5))
           ''version'' (Scalar (SStr ''v1.0.7''))) ''commit'' (Scalar (SStr ''abc123'')))
        [triangle 0, triangle 5]) Ret_none
     \<in> set (snd (notebook demo_world two_triangles []))"
    by code_simp
  have l: "Ev (Io_from_file ''ATL06-SR.h5'' HDF5 ''pytables'')
      (Ret_frame [demo_point 15, demo_point 18])
     \<in> set (snd (notebook demo_world two_triangles []))"
    by code_simp
  from file_formats [OF run_pair, where x = demo_world and u = two_triangles
      and f = "''ATL06-SR.h5''" and fm = HDF5 and d = "''pytables''"
      and f' = "''ATL06-SR.h5''" and fm' = HDF5 and d' = "''pytables''"] s l
  show ?thesis by simp
qed

subsection \<open>What a computation that returns has added to the history\<close>

lemma bnd_Inr:
  assumes "bnd m f k = (Inr v, k')"
  obtains a j where "m k = (Inr a, j)" and "f a j = (Inr v, k')"
  using assms by (auto simp: bnd_def split: prod.splits sum.splits)

lemma call_unit_Inr: "call_unit x c k = (Inr v, k') \<Longrightarrow> k' = k @ [Ev c Ret_none]"
  by (auto simp: call_unit_def split: option.splits)

lemma call_val_Inr: "call_val x c k = (Inr v, k') \<Longrightarrow> k' = k @ [Ev c (Ret_val v)]"
  by (auto simp: call_val_def split: sum.splits)

lemma call_frame_Inr: "call_frame x c k = (Inr g, k') \<Longrightarrow> k' = k @ [Ev c (Ret_frame g)]"
  by (auto simp: call_frame_def split: sum.splits)

lemma call_pair_Inr:
  "call_pair x c k = (Inr (a, b), k') \<Longrightarrow> k' = k @ [Ev c (Ret_pair a b)]"
  by (auto simp: call_pair_def split: sum.splits)

lemma calls_Inr: "calls x cs k = (Inr v, k') \<Longrightarrow> k' = k @ map (\<lambda>c. Ev c Ret_none) cs"
proof (induction cs arbitrary: k)
  case Nil
  then show ?case by (simp add: ret_def)
next
  case (Cons c cs)
  from Cons.prems obtain a j where j: "call_unit x c k = (Inr a, j)"
    and rest: "calls x cs j = (Inr v, k')"
    by (auto elim: bnd_Inr)
  from call_unit_Inr [OF j] Cons.IH [OF rest] show ?case by simp
qed

lemma outline_loop_Inr:
  "outline_loop x ps k = (Inr v, k') \<Longrightarrow>
     \<exists>outl. length outl = length ps \<and>
       k' = k @ concat (map (\<lambda>(poly, lon, lat).
              [Ev (Io_from_region poly) (Ret_pair lon lat),
               Ev (Ax_plot 2 lon lat ''r'') Ret_none]) (zip ps outl))"
proof (induction ps arbitrary: k)
  case Nil
  then show ?case by (simp add: ret_def)
next
  case (Cons poly ps)
  from Cons.prems obtain a j where j: "call_pair x (Io_from_region poly) k = (Inr a, j)"
    and rest: "(case a of (lon, lat) \<Rightarrow>
        bnd (call_unit x (Ax_plot 2 lon lat ''r'')) (\<lambda>_. outline_loop x ps)) j = (Inr v, k')"
    by (auto elim: bnd_Inr)
  obtain lon lat where a: "a = (lon, lat)" by (cases a)
  from rest a obtain b i where i: "call_unit x (Ax_plot 2 lon lat ''r'') j = (Inr b, i)"
    and loop: "outline_loop x ps i = (Inr v, k')"
    by (auto elim: bnd_Inr)
  from Cons.IH [OF loop] obtain outl where outl: "length outl = length ps"
    "k' = i @ concat (map (\<lambda>(poly, lon, lat).
              [Ev (Io_from_region poly) (Ret_pair lon lat),
               Ev (Ax_plot 2 lon lat ''r'') Ret_none]) (zip ps outl))"
    by blast
  from call_pair_Inr [OF j [unfolded a]] call_unit_Inr [OF i] outl
  have "length ((lon, lat) # outl) = length (poly # ps) \<and>
       k' = k @ concat (map (\<lambda>(poly, lon, lat).
              [Ev (Io_from_region poly) (Ret_pair lon lat),
               Ev (Ax_plot 2 lon lat ''r'') Ret_none]) (zip (poly # ps) ((lon, lat) # outl)))"
    by simp
  then show ?case by blast
qed

lemma plot_ground_tracks_Inr:
  assumes "plot_ground_tracks x gdf k = (Inr v, k')"
  shows "\<exists>xs ys. k' = k @
     [Ev (Plt_subplots 1) Ret_none, Ev (Ax_lookup 1 ''plot'') Ret_none,
      Ev (Gdf_geometry_x gdf) (Ret_val xs), Ev (Gdf_geometry_y gdf) (Ret_val ys),
      Ev (Ax_plot 1 xs ys ''r.'') Ret_none] @
     map (\<lambda>c. Ev c Ret_none) ground_tracks_decoration"
proof -
  from assms [unfolded plot_ground_tracks_def]
  obtain a1 j1 where s1: "call_unit x (Plt_subplots 1) k = (Inr a1, j1)"
    and r1: "bnd (call_unit x (Ax_lookup 1 ''plot'')) (\<lambda>_.
     bnd (call_val x (Gdf_geometry_x gdf)) (\<lambda>xs.
     bnd (call_val x (Gdf_geometry_y gdf)) (\<lambda>ys.
     bnd (call_unit x (Ax_plot 1 xs ys ''r.'')) (\<lambda>_.
     calls x ground_tracks_decoration)))) j1 = (Inr v, k')"
    by (rule bnd_Inr)
  from r1 obtain a2 j2 where s2: "call_unit x (Ax_lookup 1 ''plot'') j1 = (Inr a2, j2)"
    and r2: "bnd (call_val x (Gdf_geometry_x gdf)) (\<lambda>xs.
     bnd (call_val x (Gdf_geometry_y gdf)) (\<lambda>ys.
     bnd (call_unit x (Ax_plot 1 xs ys ''r.'')) (\<lambda>_.
     calls x ground_tracks_decoration))) j2 = (Inr v, k')"
    by (rule bnd_Inr)
  from r2 obtain xs j3 where s3: "call_val x (Gdf_geometry_x gdf) j2 = (Inr xs, j3)"
    and r3: "bnd (call_val x (Gdf_geometry_y gdf)) (\<lambda>ys.
     bnd (call_unit x (Ax_plot 1 xs ys ''r.'')) (\<lambda>_.
     calls x ground_tracks_decoration)) j3 = (Inr v, k')"
    by (rule bnd_Inr)
  from r3 obtain ys j4 where s4: "call_val x (Gdf_geometry_y gdf) j3 = (Inr ys, j4)"
    and r4: "bnd (call_unit x (Ax_plot 1 xs ys ''r.'')) (\<lambda>_.
     calls x ground_tracks_decoration) j4 = (Inr v, k')"
    by (rule bnd_Inr)
  from r4 obtain a5 j5 where s5: "call_unit x (Ax_plot 1 xs ys ''r.'') j4 = (Inr a5, j5)"
    and r5: "calls x ground_tracks_decoration j5 = (Inr v, k')"
    by (rule bnd_Inr)
  from call_unit_Inr [OF s1] call_unit_Inr [OF s2] call_val_Inr [OF s3] call_val_Inr [OF s4]
    call_unit_Inr [OF s5] calls_Inr [OF r5]
  have "k' = k @
     [Ev (Plt_subplots 1) Ret_none, Ev (Ax_lookup 1 ''plot'') Ret_none,
      Ev (Gdf_geometry_x gdf) (Ret_val xs), Ev (Gdf_geometry_y gdf) (Ret_val ys),
      Ev (Ax_plot 1 xs ys ''r.'') Ret_none] @
     map (\<lambda>c. Ev c Ret_none) ground_tracks_decoration"
    by simp
  then show ?thesis by blast
qed

lemma plot_heights_Inr:
  assumes "plot_heights x w gdf k = (Inr v, k')"
  shows "\<exists>xs ys hs outl. length outl = length (regions w) \<and> k' = k @
     [Ev (Plt_subplots 2) Ret_none, Ev (Ax_lookup 2 ''scatter'') Ret_none,
      Ev (Gdf_geometry_x gdf) (Ret_val xs), Ev (Gdf_geometry_y gdf) (Ret_val ys),
      Ev (Gdf_h_mean gdf) (Ret_val hs), Ev (Ax_scatter 2 xs ys hs) Ret_none] @
     concat (map (\<lambda>(poly, lon, lat).
              [Ev (Io_from_region poly) (Ret_pair lon lat),
               Ev (Ax_plot 2 lon lat ''r'') Ret_none]) (zip (regions w) outl)) @
     map (\<lambda>c. Ev c Ret_none) heights_decoration"
proof -
  from assms [unfolded plot_heights_def]
  obtain a1 j1 where s1: "call_unit x (Plt_subplots 2) k = (Inr a1, j1)"
    and r1: "bnd (call_unit x (Ax_lookup 2 ''scatter'')) (\<lambda>_.
     bnd (call_val x (Gdf_geometry_x gdf)) (\<lambda>xs.
     bnd (call_val x (Gdf_geometry_y gdf)) (\<lambda>ys.
     bnd (call_val x (Gdf_h_mean gdf)) (\<lambda>cs.
     bnd (call_unit x (Ax_scatter 2 xs ys cs)) (\<lambda>_.
     bnd (outline_loop x (regions w)) (\<lambda>_.
     calls x heights_decoration)))))) j1 = (Inr v, k')"
    by (rule bnd_Inr)
  from r1 obtain a2 j2 where s2: "call_unit x (Ax_lookup 2 ''scatter'') j1 = (Inr a2, j2)"
    and r2: "bnd (call_val x (Gdf_geometry_x gdf)) (\<lambda>xs.
     bnd (call_val x (Gdf_geometry_y gdf)) (\<lambda>ys.
     bnd (call_val x (Gdf_h_mean gdf)) (\<lambda>cs.
     bnd (call_unit x (Ax_scatter 2 xs ys cs)) (\<lambda>_.
     bnd (outline_loop x (regions w)) (\<lambda>_.
     calls x heights_decoration))))) j2 = (Inr v, k')"
    by (rule bnd_Inr)
  from r2 obtain xs j3 where s3: "call_val x (Gdf_geometry_x gdf) j2 = (Inr xs, j3)"
    and r3: "bnd (call_val x (Gdf_geometry_y gdf)) (\<lambda>ys.
     bnd (call_val x (Gdf_h_mean gdf)) (\<lambda>cs.
     bnd (call_unit x (Ax_scatter 2 xs ys cs)) (\<lambda>_.
     bnd (outline_loop x (regions w)) (\<lambda>_.
     calls x heights_decoration)))) j3 = (Inr v, k')"
    by (rule bnd_Inr)
  from r3 obtain ys j4 where s4: "call_val x (Gdf_geometry_y gdf) j3 = (Inr ys, j4)"
    and r4: "bnd (call_val x (Gdf_h_mean gdf)) (\<lambda>cs.
     bnd (call_unit x (Ax_scatter 2 xs ys cs)) (\<lambda>_.
     bnd (outline_loop x (regions w)) (\<lambda>_.
     calls x heights_decoration))) j4 = (Inr v, k')"
    by (rule bnd_Inr)
  from r4 obtain hs j5 where s5: "call_val x (Gdf_h_mean gdf) j4 = (Inr hs, j5)"
    and r5: "bnd (call_unit x (Ax_scatter 2 xs ys hs)) (\<lambda>_.
     bnd (outline_loop x (regions w)) (\<lambda>_.
     calls x heights_decoration)) j5 = (Inr v, k')"
    by (rule bnd_Inr)
  from r5 obtain a6 j6 where s6: "call_unit x (Ax_scatter 2 xs ys hs) j5 = (Inr a6, j6)"
    and r6: "bnd (outline_loop x (regions w)) (\<lambda>_.
     calls x heights_decoration) j6 = (Inr v, k')"
    by (rule bnd_Inr)
  from r6 obtain a7 j7 where s7: "outline_loop x (regions w) j6 = (Inr a7, j7)"
    and r7: "calls x heights_decoration j7 = (Inr v, k')"
    by (rule bnd_Inr)
  from outline_loop_Inr [OF s7] obtain outl where outl: "length outl = length (regions w)"
    "j7 = j6 @ concat (map (\<lambda>(poly, lon, lat).
              [Ev (Io_from_region poly) (Ret_pair lon lat),
               Ev (Ax_plot 2 lon lat ''r'') Ret_none]) (zip (regions w) outl))"
    by blast
  from call_unit_Inr [OF s1] call_unit_Inr [OF s2] call_val_Inr [OF s3] call_val_Inr [OF s4]
    call_val_Inr [OF s5] call_unit_Inr [OF s6] outl(2) calls_Inr [OF r7]
  have "k' = k @
     [Ev (Plt_subplots 2) Ret_none, Ev (Ax_lookup 2 ''scatter'') Ret_none,
      Ev (Gdf_geometry_x gdf) (Ret_val xs), Ev (Gdf_geometry_y gdf) (Ret_val ys),
      Ev (Gdf_h_mean gdf) (Ret_val hs), Ev (Ax_scatter 2 xs ys hs) Ret_none] @
     concat (map (\<lambda>(poly, lon, lat).
              [Ev (Io_from_region poly) (Ret_pair lon lat),
               Ev (Ax_plot 2 lon lat ''r'') Ret_none]) (zip (regions w) outl)) @
     map (\<lambda>c. Ev c Ret_none) heights_decoration"
    by simp
  with outl(1) show ?thesis by blast
qed

lemma cell_plot_Inr:
  assumes "cell_plot x w gdf k = (Inr v, k')"
  shows "\<exists>xs ys xs' ys' hs outl. length outl = length (regions w) \<and> k' = k @
     [Ev (Plt_subplots 1) Ret_none, Ev (Ax_lookup 1 ''plot'') Ret_none,
      Ev (Gdf_geometry_x gdf) (Ret_val xs), Ev (Gdf_geometry_y gdf) (Ret_val ys),
      Ev (Ax_plot 1 xs ys ''r.'') Ret_none] @
     map (\<lambda>c. Ev c Ret_none) ground_tracks_decoration @
     [Ev (Plt_subplots 2) Ret_none, Ev (Ax_lookup 2 ''scatter'') Ret_none,
      Ev (Gdf_geometry_x gdf) (Ret_val xs'), Ev (Gdf_geometry_y gdf) (Ret_val ys'),
      Ev (Gdf_h_mean gdf) (Ret_val hs), Ev (Ax_scatter 2 xs' ys' hs) Ret_none] @
     concat (map (\<lambda>(poly, lon, lat).
              [Ev (Io_from_region poly) (Ret_pair lon lat),
               Ev (Ax_plot 2 lon lat ''r'') Ret_none]) (zip (regions w) outl)) @
     map (\<lambda>c. Ev c Ret_none) heights_decoration"
proof -
  from assms [unfolded cell_plot_def]
  obtain a j where s: "plot_ground_tracks x gdf k = (Inr a, j)"
    and r: "plot_heights x w gdf j = (Inr v, k')"
    by (rule bnd_Inr)
  from plot_ground_tracks_Inr [OF s] obtain xs ys where j: "j = k @
     [Ev (Plt_subplots 1) Ret_none, Ev (Ax_lookup 1 ''plot'') Ret_none,
      Ev (Gdf_geometry_x gdf) (Ret_val xs), Ev (Gdf_geometry_y gdf) (Ret_val ys),
      Ev (Ax_plot 1 xs ys ''r.'') Ret_none] @
     map (\<lambda>c. Ev c Ret_none) ground_tracks_decoration"
    by blast
  from plot_heights_Inr [OF r] obtain xs' ys' hs outl where
    outl: "length outl = length (regions w)" and k': "k' = j @
     [Ev (Plt_subplots 2) Ret_none, Ev (Ax_lookup 2 ''scatter'') Ret_none,
      Ev (Gdf_geometry_x gdf) (Ret_val xs'), Ev (Gdf_geometry_y gdf) (Ret_val ys'),
      Ev (Gdf_h_mean gdf) (Ret_val hs), Ev (Ax_scatter 2 xs' ys' hs) Ret_none] @
     concat (map (\<lambda>(poly, lon, lat).
              [Ev (Io_from_region poly) (Ret_pair lon lat),
               Ev (Ax_plot 2 lon lat ''r'') Ret_none]) (zip (regions w) outl)) @
     map (\<lambda>c. Ev c Ret_none) heights_decoration"
    by blast
  from k' have "k' = k @
     [Ev (Plt_subplots 1) Ret_none, Ev (Ax_lookup 1 ''plot'') Ret_none,
      Ev (Gdf_geometry_x gdf) (Ret_val xs), Ev (Gdf_geometry_y gdf) (Ret_val ys),
      Ev (Ax_plot 1 xs ys ''r.'') Ret_none] @
     map (\<lambda>c. Ev c Ret_none) ground_tracks_decoration @
     [Ev (Plt_subplots 2) Ret_none, Ev (Ax_lookup 2 ''scatter'') Ret_none,
      Ev (Gdf_geometry_x gdf) (Ret_val xs'), Ev (Gdf_geometry_y gdf) (Ret_val ys'),
      Ev (Gdf_h_mean gdf) (Ret_val hs), Ev (Ax_scatter 2 xs' ys' hs) Ret_none] @
     concat (map (\<lambda>(poly, lon, lat).
              [Ev (Io_from_region poly) (Ret_pair lon lat),
               Ev (Ax_plot 2 lon lat ''r'') Ret_none]) (zip (regions w) outl)) @
     map (\<lambda>c. Ev c Ret_none) heights_decoration"
    unfolding j by simp
  with outl show ?thesis by blast
qed

lemma cell_save_done:
  assumes "cell_save x w gdf parms h = (Inr p', h')"
  shows "\<exists>p0 ver i v c. parms = Some p0 \<and> world_val x h Icesat2_get_version = Inr ver \<and>
     subscript ver ''icesat2'' = Inr i \<and> subscript i ''version'' = Inr v \<and>
     subscript i ''commit'' = Inr c \<and>
     p' = dict_set (dict_set p0 ''version'' v) ''commit'' c \<and>
     h' = h @ [Ev Icesat2_get_version (Ret_val ver),
               Ev (Io_to_file gdf (file_name w) (format w) ''pytables'' p' (regions w)) Ret_none]"
  using assms
  by (auto simp: cell_save_def bnd_def call_val_def call_unit_def pure_step_def raise_def
      ret_def Let_def split: sum.splits option.splits)

lemma notebook_Inr:
  assumes "notebook x u [] = (Inr g, h)"
  shows "\<exists>k j gdf parms i ver p.
      cell_request x (at_request u) k = (Inr (gdf, parms), j) \<and>
      cell_plot x (at_plot u) gdf j = (Inr (), i) \<and>
      h = i @ [Ev (Display ''SRwidgets.filesaver'') Ret_none,
               Ev Icesat2_get_version (Ret_val ver),
               Ev (Io_to_file gdf (file_name (at_save u)) (format (at_save u)) ''pytables'' p
                  (regions (at_save u))) Ret_none,
               Ev (Display ''SRwidgets.fileloader'') Ret_none,
               Ev (Io_from_file (file_name (at_load u)) (format (at_load u)) ''pytables'')
                  (Ret_frame g)]"
proof -
  from assms [unfolded notebook_def]
  obtain a1 j1 where r1: "bnd (cell_options x) (\<lambda>_.
     bnd (cell_map x (at_map u)) (\<lambda>_.
     bnd (cell_request x (at_request u)) (\<lambda>(gdf, parms).
     bnd (cell_plot x (at_plot u) gdf) (\<lambda>_.
     bnd (cell_filesaver x) (\<lambda>_.
     bnd (cell_save x (at_save u) gdf parms) (\<lambda>_.
     bnd (cell_fileloader x) (\<lambda>_.
     cell_load x (at_load u)))))))) j1 = (Inr g, h)"
    by (rule bnd_Inr)
  from r1 obtain a2 j2 where r2: "bnd (cell_map x (at_map u)) (\<lambda>_.
     bnd (cell_request x (at_request u)) (\<lambda>(gdf, parms).
     bnd (cell_plot x (at_plot u) gdf) (\<lambda>_.
     bnd (cell_filesaver x) (\<lambda>_.
     bnd (cell_save x (at_save u) gdf parms) (\<lambda>_.
     bnd (cell_fileloader x) (\<lambda>_.
     cell_load x (at_load u))))))) j2 = (Inr g, h)"
    by (rule bnd_Inr)
  from r2 obtain a3 k where r3: "bnd (cell_request x (at_request u)) (\<lambda>(gdf, parms).
     bnd (cell_plot x (at_plot u) gdf) (\<lambda>_.
     bnd (cell_filesaver x) (\<lambda>_.
     bnd (cell_save x (at_save u) gdf parms) (\<lambda>_.
     bnd (cell_fileloader x) (\<lambda>_.
     cell_load x (at_load u)))))) k = (Inr g, h)"
    by (rule bnd_Inr)
  from r3 obtain a4 j where s4: "cell_request x (at_request u) k = (Inr a4, j)"
    and r4: "(case a4 of (gdf, parms) \<Rightarrow>
     bnd (cell_plot x (at_plot u) gdf) (\<lambda>_.
     bnd (cell_filesaver x) (\<lambda>_.
     bnd (cell_save x (at_save u) gdf parms) (\<lambda>_.
     bnd (cell_fileloader x) (\<lambda>_.
     cell_load x (at_load u)))))) j = (Inr g, h)"
    by (rule bnd_Inr)
  obtain gdf parms where a4: "a4 = (gdf, parms)" by (cases a4)
  from r4 [unfolded a4 prod.case]
  obtain a5 i where s5: "cell_plot x (at_plot u) gdf j = (Inr a5, i)"
    and r5: "bnd (cell_filesaver x) (\<lambda>_.
     bnd (cell_save x (at_save u) gdf parms) (\<lambda>_.
     bnd (cell_fileloader x) (\<lambda>_.
     cell_load x (at_load u)))) i = (Inr g, h)"
    by (rule bnd_Inr)
  from r5 obtain a6 j6 where s6: "cell_filesaver x i = (Inr a6, j6)"
    and r6: "bnd (cell_save x (at_save u) gdf parms) (\<lambda>_.
     bnd (cell_fileloader x) (\<lambda>_.
     cell_load x (at_load u))) j6 = (Inr g, h)"
    by (rule bnd_Inr)
  from r6 obtain p j7 where s7: "cell_save x (at_save u) gdf parms j6 = (Inr p, j7)"
    and r7: "bnd (cell_fileloader x) (\<lambda>_. cell_load x (at_load u)) j7 = (Inr g, h)"
    by (rule bnd_Inr)
  from r7 obtain a8 j8 where s8: "cell_fileloader x j7 = (Inr a8, j8)"
    and r8: "cell_load x (at_load u) j8 = (Inr g, h)"
    by (rule bnd_Inr)
  from cell_save_done [OF s7] obtain ver where j7: "j7 = j6 @
      [Ev Icesat2_get_version (Ret_val ver),
       Ev (Io_to_file gdf (file_name (at_save u)) (format (at_save u)) ''pytables'' p
          (regions (at_save u))) Ret_none]"
    by blast
  from call_unit_Inr [OF s6 [unfolded cell_filesaver_def]] j7 call_unit_Inr [OF s8 [unfolded cell_fileloader_def]]
    call_frame_Inr [OF r8 [unfolded cell_load_def]]
  have "h = i @ [Ev (Display ''SRwidgets.filesaver'') Ret_none,
               Ev Icesat2_get_version (Ret_val ver),
               Ev (Io_to_file gdf (file_name (at_save u)) (format (at_save u)) ''pytables'' p
                  (regions (at_save u))) Ret_none,
               Ev (Display ''SRwidgets.fileloader'') Ret_none,
               Ev (Io_from_file (file_name (at_load u)) (format (at_load u)) ''pytables'')
                  (Ret_frame g)]"
    by simp
  moreover from s5 have "cell_plot x (at_plot u) gdf j = (Inr (), i)" by simp
  ultimately show ?thesis using s4 [unfolded a4] by blast
qed

subsection \<open>The plots\<close>

lemma prefix_split:
  assumes "prefix s (A @ c # B)" and "c \<in> set s" and "c \<notin> set A"
  shows "\<exists>B'. s = A @ c # B' \<and> prefix B' B"
proof -
  from assms(1) have "prefix s A \<or> (\<exists>t. s = A @ t \<and> prefix t (c # B))"
    by (auto simp: prefix_append)
  then show ?thesis
  proof
    assume "prefix s A"
    then have "set s \<subseteq> set A" by (rule set_mono_prefix)
    with assms(2,3) show ?thesis by blast
  next
    assume "\<exists>t. s = A @ t \<and> prefix t (c # B)"
    then obtain t where t: "s = A @ t" "prefix t (c # B)" by blast
    with assms(2,3) have "t \<noteq> []" by auto
    with t(2) obtain B' where "t = c # B'" "prefix B' B" by (cases t) auto
    with t(1) show ?thesis by blast
  qed
qed

lemma plan_split: "plan u = plan_before_show u @ Plt_show # plan_after_show u"
  by (simp add: plan_def plan_before_show_def plan_after_show_def plan_plot_def
      heights_decoration_def)

lemma show_not_before: "Plt_show \<notin> set (plan_before_show u)"
  using set_plan_loop [of "at_request u" "regions (at_request u)"]
    set_plan_outlines [of "regions (at_plot u)"]
  by (auto simp: plan_before_show_def plan_imports_def plan_options_def plan_map_def
      plan_request_def ground_tracks_decoration_def heights_decoration_def)

lemma figures_plan_loop: "List.map_filter figure_of (plan_loop w ps) = []"
  by (induction ps) (simp_all add: plan_loop_def map_filter_def)

lemma figures_plan_outlines: "List.map_filter figure_of (plan_outlines ps) = []"
  by (induction ps) (simp_all add: plan_outlines_def map_filter_def)

lemma figures_before: "List.map_filter figure_of (plan_before_show u) = [1, 2]"
  by (simp add: plan_before_show_def map_filter_append figures_plan_loop figures_plan_outlines
      plan_imports_def plan_options_def plan_map_def plan_request_def
      ground_tracks_decoration_def heights_decoration_def)

lemma figures_after: "List.map_filter figure_of (plan_after_show u) = []"
  by (simp add: plan_after_show_def plan_save_def plan_load_def)

lemma drawn_plan_loop: "filter draws (plan_loop w ps) = []"
  by (induction ps) (simp_all add: plan_loop_def)

lemma drawn_plan_outlines:
  "filter draws (plan_outlines ps) = replicate (length ps) (Ax_plot 2 (PList []) (PList []) ''r'')"
  by (induction ps) (simp_all add: plan_outlines_def)

lemma drawn_before:
  "filter draws (plan_before_show u) =
     [Plt_subplots 1, Ax_plot 1 (PList []) (PList []) ''r.'', Plt_subplots 2,
      Ax_scatter 2 (PList []) (PList []) (PList [])] @
     replicate (length (regions (at_plot u))) (Ax_plot 2 (PList []) (PList []) ''r'') @
     [Fig_colorbar 2]"
  by (simp add: plan_before_show_def drawn_plan_loop drawn_plan_outlines
      plan_imports_def plan_options_def plan_map_def plan_request_def
      ground_tracks_decoration_def heights_decoration_def)

lemma drawn_after: "filter draws (plan_after_show u) = []"
  by (simp add: plan_after_show_def plan_save_def plan_load_def)

lemma filter_prefix_Nil: "prefix xs ys \<Longrightarrow> filter P ys = [] \<Longrightarrow> filter P xs = []"
  by (auto simp: prefix_def)

lemma map_filter_prefix_Nil:
  "prefix xs ys \<Longrightarrow> List.map_filter f ys = [] \<Longrightarrow> List.map_filter f xs = []"
  by (auto simp: prefix_def map_filter_append)

text \<open>
  Claim C9. The plotting step renders exactly two plots, a global map of the points of
  the ground tracks and a local map of the segment elevations with a colorbar, and no
  figure is created after it. In every run \<^verbatim>\<open>plt.subplots\<close> is called at most twice,
  for the figures 1 and 2 in this order; and once \<^verbatim>\<open>plt.show()\<close> has been called, both
  figures have been created and what has been drawn is: on figure 1 the points of the
  ground tracks, on figure 2 the scatter of the segment elevations, the outline of
  every region, and one colorbar. A run that completes has created the figures 1 and 2
  and no other: it has run the plotting step on the table that the request step
  returned, and the calls after the plotting step create no figure and draw nothing. A
  plotting step that completes has made these calls and no other, each of which
  returned: figure 1 is created and the columns \<^verbatim>\<open>geometry.x\<close> and \<^verbatim>\<open>geometry.y\<close> read off
  the table are plotted on it as red points, on a map of the whole globe (extent
  \<^verbatim>\<open>(-180,180,-90,90)\<close>) with land, lakes and grid lines, titled \<^verbatim>\<open>Ground Tracks\<close>; then
  figure 2 is created and the same two columns read again are scattered on it,
  coloured by the column \<^verbatim>\<open>h_mean\<close> read off the table; for each region in turn its
  outline is computed and plotted in red; land and lakes are added, then one colorbar
  on axes of its own, labelled \<^verbatim>\<open>Height above WGS84 Ellipsoid\<close> in \<^verbatim>\<open>m\<close>; and the two
  figures are shown.
\<close>

theorem two_plots:
  assumes run: "notebook x u [] = (r, h)"
  shows "prefix (figures h) [1, 2] \<and>
     (Ev Plt_show rsp \<in> set h \<longrightarrow>
        figures h = [1, 2] \<and>
        drawn h =
          [Plt_subplots 1, Ax_plot 1 (PList []) (PList []) ''r.'', Plt_subplots 2,
           Ax_scatter 2 (PList []) (PList []) (PList [])] @
          replicate (length (regions (at_plot u))) (Ax_plot 2 (PList []) (PList []) ''r'') @
          [Fig_colorbar 2]) \<and>
     (r = Inr g' \<longrightarrow>
        figures h = [1, 2] \<and>
        (\<exists>k j gdf parms i post.
           cell_request x (at_request u) k = (Inr (gdf, parms), j) \<and>
           cell_plot x (at_plot u) gdf j = (Inr (), i) \<and>
           h = i @ post \<and> figures post = [] \<and> drawn post = [])) \<and>
     (cell_plot x w gdf k = (Inr v, k') \<longrightarrow>
        (\<exists>xs ys xs' ys' hs outl.
           length outl = length (regions w) \<and>
           k' = k @
             [Ev (Plt_subplots 1) Ret_none,
              Ev (Ax_lookup 1 ''plot'') Ret_none,
              Ev (Gdf_geometry_x gdf) (Ret_val xs),
              Ev (Gdf_geometry_y gdf) (Ret_val ys),
              Ev (Ax_plot 1 xs ys ''r.'') Ret_none,
              Ev (Ax_call 1 ''set_extent''
                    [''(-180,180,-90,90)'', ''crs=cartopy.crs.PlateCarree()'']) Ret_none,
              Ev (Ax_call 1 ''add_feature''
                    [''cartopy.feature.LAND'', ''zorder=0'', ''edgecolor=black'']) Ret_none,
              Ev (Ax_call 1 ''add_feature'' [''cartopy.feature.LAKES'']) Ret_none,
              Ev (Ax_call 1 ''gridlines''
                    [''xlocs=np.arange(-180.,181.,60.)'', ''ylocs=np.arange(-90.,91.,30.)''])
                 Ret_none,
              Ev (Ax_call 1 ''set_title'' [''Ground Tracks'']) Ret_none,
              Ev (Ax_call 1 ''spines[geo].set_linewidth'' [''2.0'']) Ret_none,
              Ev (Ax_call 1 ''spines[geo].set_capstyle'' [''projecting'']) Ret_none,
              Ev (Fig_call 1 ''subplots_adjust''
                    [''left=0.02'', ''right=0.98'', ''bottom=0.05'', ''top=0.98'']) Ret_none,
              Ev (Plt_subplots 2) Ret_none,
              Ev (Ax_lookup 2 ''scatter'') Ret_none,
              Ev (Gdf_geometry_x gdf) (Ret_val xs'),
              Ev (Gdf_geometry_y gdf) (Ret_val ys'),
              Ev (Gdf_h_mean gdf) (Ret_val hs),
              Ev (Ax_scatter 2 xs' ys' hs) Ret_none] @
             concat (map (\<lambda>(poly, lon, lat).
                      [Ev (Io_from_region poly) (Ret_pair lon lat),
                       Ev (Ax_plot 2 lon lat ''r'') Ret_none]) (zip (regions w) outl)) @
             [Ev (Ax_call 2 ''add_feature''
                    [''cartopy.feature.LAND'', ''zorder=0'', ''edgecolor=black'']) Ret_none,
              Ev (Ax_call 2 ''add_feature'' [''cartopy.feature.LAKES'']) Ret_none,
              Ev (Fig_call 2 ''add_axes'' [''[0.87, 0.015, 0.0325, 0.94]'']) Ret_none,
              Ev (Fig_colorbar 2) Ret_none,
              Ev (Cbar_call ''solids.set_rasterized'' [''True'']) Ret_none,
              Ev (Cbar_call ''ax.set_ylabel''
                    [''Height above WGS84 Ellipsoid'', ''labelpad=10'']) Ret_none,
              Ev (Cbar_call ''ax.set_xlabel'' [''m'', ''rotation=0'']) Ret_none,
              Ev (Cbar_call ''ax.xaxis.set_label_coords'' [''0.5'', ''1.05'']) Ret_none,
              Ev (Cbar_call ''ax.tick_params'' [''which=both'', ''width=1'', ''direction=in''])
                 Ret_none,
              Ev (Ax_call 2 ''spines[geo].set_linewidth'' [''2.0'']) Ret_none,
              Ev (Ax_call 2 ''spines[geo].set_capstyle'' [''projecting'']) Ret_none,
              Ev (Fig_call 2 ''subplots_adjust''
                    [''left=0.02'', ''right=0.86'', ''bottom=0.05'', ''top=0.98'']) Ret_none,
              Ev Plt_show Ret_none]))"
proof -
  have figs: "figures h = List.map_filter figure_of (shape h)"
    unfolding figures_def by (rule map_filter_shape) (rule figure_of_blank)
  have two: "List.map_filter figure_of (plan u) = [1, 2]"
    by (simp add: plan_split map_filter_append figures_before figures_after)
  with map_filter_prefix [OF run_follows(1) [OF run], of figure_of]
  have a: "prefix (figures h) [1, 2]" by (simp add: figs)
  have b: "figures h = [1, 2] \<and>
        drawn h =
          [Plt_subplots 1, Ax_plot 1 (PList []) (PList []) ''r.'', Plt_subplots 2,
           Ax_scatter 2 (PList []) (PList []) (PList [])] @
          replicate (length (regions (at_plot u))) (Ax_plot 2 (PList []) (PList []) ''r'') @
          [Fig_colorbar 2]"
    if "Ev Plt_show rsp \<in> set h"
  proof -
    from event_in_shape [OF that] have "Plt_show \<in> set (shape h)" by simp
    from prefix_split [OF run_follows(1) [OF run, unfolded plan_split] this show_not_before]
    obtain B' where s: "shape h = plan_before_show u @ Plt_show # B'"
      and B': "prefix B' (plan_after_show u)" by blast
    from map_filter_prefix_Nil [OF B' figures_after] filter_prefix_Nil [OF B' drawn_after]
    show ?thesis
      by (simp add: figs drawn_def s map_filter_append figures_before drawn_before)
  qed
  have c: "figures h = [1, 2] \<and>
        (\<exists>k j gdf parms i post.
           cell_request x (at_request u) k = (Inr (gdf, parms), j) \<and>
           cell_plot x (at_plot u) gdf j = (Inr (), i) \<and>
           h = i @ post \<and> figures post = [] \<and> drawn post = [])"
    if "r = Inr g'"
  proof -
    from that run_follows(2) [OF run] have "shape h = plan u" by simp
    with two have f: "figures h = [1, 2]" by (simp add: figs)
    from run that have "notebook x u [] = (Inr g', h)" by simp
    from notebook_Inr [OF this] obtain k j gdf parms i ver p where
      req: "cell_request x (at_request u) k = (Inr (gdf, parms), j)"
      and plt: "cell_plot x (at_plot u) gdf j = (Inr (), i)"
      and h: "h = i @ [Ev (Display ''SRwidgets.filesaver'') Ret_none,
               Ev Icesat2_get_version (Ret_val ver),
               Ev (Io_to_file gdf (file_name (at_save u)) (format (at_save u)) ''pytables'' p
                  (regions (at_save u))) Ret_none,
               Ev (Display ''SRwidgets.fileloader'') Ret_none,
               Ev (Io_from_file (file_name (at_load u)) (format (at_load u)) ''pytables'')
                  (Ret_frame g')]"
      by blast
    let ?post = "[Ev (Display ''SRwidgets.filesaver'') Ret_none,
               Ev Icesat2_get_version (Ret_val ver),
               Ev (Io_to_file gdf (file_name (at_save u)) (format (at_save u)) ''pytables'' p
                  (regions (at_save u))) Ret_none,
               Ev (Display ''SRwidgets.fileloader'') Ret_none,
               Ev (Io_from_file (file_name (at_load u)) (format (at_load u)) ''pytables'')
                  (Ret_frame g')]"
    have "figures ?post = []" by (simp add: figures_def map_filter_def)
    moreover have "drawn ?post = []" by (simp add: drawn_def shape_def blank_def)
    ultimately have "\<exists>k j gdf parms i post.
           cell_request x (at_request u) k = (Inr (gdf, parms), j) \<and>
           cell_plot x (at_plot u) gdf j = (Inr (), i) \<and>
           h = i @ post \<and> figures post = [] \<and> drawn post = []"
      using req plt h by blast
    with f show ?thesis by (rule conjI)
  qed
  have d: "\<exists>xs ys xs' ys' hs outl.
           length outl = length (regions w) \<and>
           k' = k @
             [Ev (Plt_subplots 1) Ret_none,
              Ev (Ax_lookup 1 ''plot'') Ret_none,
              Ev (Gdf_geometry_x gdf) (Ret_val xs),
              Ev (Gdf_geometry_y gdf) (Ret_val ys),
              Ev (Ax_plot 1 xs ys ''r.'') Ret_none,
              Ev (Ax_call 1 ''set_extent''
                    [''(-180,180,-90,90)'', ''crs=cartopy.crs.PlateCarree()'']) Ret_none,
              Ev (Ax_call 1 ''add_feature''
                    [''cartopy.feature.LAND'', ''zorder=0'', ''edgecolor=black'']) Ret_none,
              Ev (Ax_call 1 ''add_feature'' [''cartopy.feature.LAKES'']) Ret_none,
              Ev (Ax_call 1 ''gridlines''
                    [''xlocs=np.arange(-180.,181.,60.)'', ''ylocs=np.arange(-90.,91.,30.)''])
                 Ret_none,
              Ev (Ax_call 1 ''set_title'' [''Ground Tracks'']) Ret_none,
              Ev (Ax_call 1 ''spines[geo].set_linewidth'' [''2.0'']) Ret_none,
              Ev (Ax_call 1 ''spines[geo].set_capstyle'' [''projecting'']) Ret_none,
              Ev (Fig_call 1 ''subplots_adjust''
                    [''left=0.02'', ''right=0.98'', ''bottom=0.05'', ''top=0.98'']) Ret_none,
              Ev (Plt_subplots 2) Ret_none,
              Ev (Ax_lookup 2 ''scatter'') Ret_none,
              Ev (Gdf_geometry_x gdf) (Ret_val xs'),
              Ev (Gdf_geometry_y gdf) (Ret_val ys'),
              Ev (Gdf_h_mean gdf) (Ret_val hs),
              Ev (Ax_scatter 2 xs' ys' hs) Ret_none] @
             concat (map (\<lambda>(poly, lon, lat).
                      [Ev (Io_from_region poly) (Ret_pair lon lat),
                       Ev (Ax_plot 2 lon lat ''r'') Ret_none]) (zip (regions w) outl)) @
             [Ev (Ax_call 2 ''add_feature''
                    [''cartopy.feature.LAND'', ''zorder=0'', ''edgecolor=black'']) Ret_none,
              Ev (Ax_call 2 ''add_feature'' [''cartopy.feature.LAKES'']) Ret_none,
              Ev (Fig_call 2 ''add_axes'' [''[0.87, 0.015, 0.0325, 0.94]'']) Ret_none,
              Ev (Fig_colorbar 2) Ret_none,
              Ev (Cbar_call ''solids.set_rasterized'' [''True'']) Ret_none,
              Ev (Cbar_call ''ax.set_ylabel''
                    [''Height above WGS84 Ellipsoid'', ''labelpad=10'']) Ret_none,
              Ev (Cbar_call ''ax.set_xlabel'' [''m'', ''rotation=0'']) Ret_none,
              Ev (Cbar_call ''ax.xaxis.set_label_coords'' [''0.5'', ''1.05'']) Ret_none,
              Ev (Cbar_call ''ax.tick_params'' [''which=both'', ''width=1'', ''direction=in''])
                 Ret_none,
              Ev (Ax_call 2 ''spines[geo].set_linewidth'' [''2.0'']) Ret_none,
              Ev (Ax_call 2 ''spines[geo].set_capstyle'' [''projecting'']) Ret_none,
              Ev (Fig_call 2 ''subplots_adjust''
                    [''left=0.02'', ''right=0.86'', ''bottom=0.05'', ''top=0.98'']) Ret_none,
              Ev Plt_show Ret_none]"
    if "cell_plot x w gdf k = (Inr v, k')"
    using cell_plot_Inr [OF that]
    by (simp add: ground_tracks_decoration_def heights_decoration_def)
  show ?thesis
    apply (intro conjI)
    subgoal by (rule a)
    subgoal by (rule impI) (rule b)
    subgoal by (rule impI) (rule c)
    subgoal by (rule impI) (rule d)
    done
qed

theorem two_plots_witness:
  "fst (notebook demo_world two_triangles []) = Inr [demo_point 15, demo_point 18] \<and>
   Ev Plt_show Ret_none \<in> set (snd (notebook demo_world two_triangles [])) \<and>
   Ev (Ax_plot 1 (PList [Scalar (SInt 15), Scalar (SInt 18)])
         (PList [Scalar (SInt 0), Scalar (SInt 0)]) ''r.'') Ret_none
     \<in> set (snd (notebook demo_world two_triangles [])) \<and>
   Ev (Ax_scatter 2 (PList [Scalar (SInt 15), Scalar (SInt 18)])
         (PList [Scalar (SInt 0), Scalar (SInt 0)])
         (PList [Scalar (SFloat 1 10), Scalar (SFloat 1 10)])) Ret_none
     \<in> set (snd (notebook demo_world two_triangles [])) \<and>
   figures (snd (notebook demo_world two_triangles [])) = [1, 2] \<and>
   drawn (snd (notebook demo_world two_triangles [])) =
     [Plt_subplots 1, Ax_plot 1 (PList []) (PList []) ''r.'', Plt_subplots 2,
      Ax_scatter 2 (PList []) (PList []) (PList []),
      Ax_plot 2 (PList []) (PList []) ''r'', Ax_plot 2 (PList []) (PList []) ''r'',
      Fig_colorbar 2] \<and>
   (\<exists>k j gdf parms i post.
      cell_request demo_world (at_request two_triangles) k = (Inr (gdf, parms), j) \<and>
      cell_plot demo_world (at_plot two_triangles) gdf j = (Inr (), i) \<and>
      snd (notebook demo_world two_triangles []) = i @ post \<and>
      figures post = [] \<and> drawn post = []) \<and>
   fst (cell_plot demo_world (demo_ui [triangle 0, triangle 5])
      [demo_point 15, demo_point 18] []) = Inr () \<and>
        (\<exists>xs ys xs' ys' hs outl.
           length outl = length (regions (demo_ui [triangle 0, triangle 5])) \<and>
           snd (cell_plot demo_world (demo_ui [triangle 0, triangle 5])
               [demo_point 15, demo_point 18] []) = [] @
             [Ev (Plt_subplots 1) Ret_none,
              Ev (Ax_lookup 1 ''plot'') Ret_none,
              Ev (Gdf_geometry_x [demo_point 15, demo_point 18]) (Ret_val xs),
              Ev (Gdf_geometry_y [demo_point 15, demo_point 18]) (Ret_val ys),
              Ev (Ax_plot 1 xs ys ''r.'') Ret_none,
              Ev (Ax_call 1 ''set_extent''
                    [''(-180,180,-90,90)'', ''crs=cartopy.crs.PlateCarree()'']) Ret_none,
              Ev (Ax_call 1 ''add_feature''
                    [''cartopy.feature.LAND'', ''zorder=0'', ''edgecolor=black'']) Ret_none,
              Ev (Ax_call 1 ''add_feature'' [''cartopy.feature.LAKES'']) Ret_none,
              Ev (Ax_call 1 ''gridlines''
                    [''xlocs=np.arange(-180.,181.,60.)'', ''ylocs=np.arange(-90.,91.,30.)''])
                 Ret_none,
              Ev (Ax_call 1 ''set_title'' [''Ground Tracks'']) Ret_none,
              Ev (Ax_call 1 ''spines[geo].set_linewidth'' [''2.0'']) Ret_none,
              Ev (Ax_call 1 ''spines[geo].set_capstyle'' [''projecting'']) Ret_none,
              Ev (Fig_call 1 ''subplots_adjust''
                    [''left=0.02'', ''right=0.98'', ''bottom=0.05'', ''top=0.98'']) Ret_none,
              Ev (Plt_subplots 2) Ret_none,
              Ev (Ax_lookup 2 ''scatter'') Ret_none,
              Ev (Gdf_geometry_x [demo_point 15, demo_point 18]) (Ret_val xs'),
              Ev (Gdf_geometry_y [demo_point 15, demo_point 18]) (Ret_val ys'),
              Ev (Gdf_h_mean [demo_point 15, demo_point 18]) (Ret_val hs),
              Ev (Ax_scatter 2 xs' ys' hs) Ret_none] @
             concat (map (\<lambda>(poly, lon, lat).
                      [Ev (Io_from_region poly) (Ret_pair lon lat),
                       Ev (Ax_plot 2 lon lat ''r'') Ret_none]) (zip (regions (demo_ui [triangle 0, triangle 5])) outl)) @
             [Ev (Ax_call 2 ''add_feature''
                    [''cartopy.feature.LAND'', ''zorder=0'', ''edgecolor=black'']) Ret_none,
              Ev (Ax_call 2 ''add_feature'' [''cartopy.feature.LAKES'']) Ret_none,
              Ev (Fig_call 2 ''add_axes'' [''[0.87, 0.015, 0.0325, 0.94]'']) Ret_none,
              Ev (Fig_colorbar 2) Ret_none,
              Ev (Cbar_call ''solids.set_rasterized'' [''True'']) Ret_none,
              Ev (Cbar_call ''ax.set_ylabel''
                    [''Height above WGS84 Ellipsoid'', ''labelpad=10'']) Ret_none,
              Ev (Cbar_call ''ax.set_xlabel'' [''m'', ''rotation=0'']) Ret_none,
              Ev (Cbar_call ''ax.xaxis.set_label_coords'' [''0.5'', ''1.05'']) Ret_none,
              Ev (Cbar_call ''ax.tick_params'' [''which=both'', ''width=1'', ''direction=in''])
                 Ret_none,
              Ev (Ax_call 2 ''spines[geo].set_linewidth'' [''2.0'']) Ret_none,
              Ev (Ax_call 2 ''spines[geo].set_capstyle'' [''projecting'']) Ret_none,
              Ev (Fig_call 2 ''subplots_adjust''
                    [''left=0.02'', ''right=0.86'', ''bottom=0.05'', ''top=0.98'']) Ret_none,
              Ev Plt_show Ret_none])"
proof -
  have r: "fst (notebook demo_world two_triangles []) = Inr [demo_point 15, demo_point 18]"
    by code_simp
  have s: "Ev Plt_show Ret_none \<in> set (snd (notebook demo_world two_triangles []))"
    by code_simp
  have p: "Ev (Ax_plot 1 (PList [Scalar (SInt 15), Scalar (SInt 18)])
         (PList [Scalar (SInt 0), Scalar (SInt 0)]) ''r.'') Ret_none
     \<in> set (snd (notebook demo_world two_triangles []))"
    by code_simp
  have q: "Ev (Ax_scatter 2 (PList [Scalar (SInt 15), Scalar (SInt 18)])
         (PList [Scalar (SInt 0), Scalar (SInt 0)])
         (PList [Scalar (SFloat 1 10), Scalar (SFloat 1 10)])) Ret_none
     \<in> set (snd (notebook demo_world two_triangles []))"
    by code_simp
  have n: "length (regions (at_plot two_triangles)) = 2"
    by (simp add: two_triangles_def demo_session_def demo_ui_def)
  have f: "fst (cell_plot demo_world (demo_ui [triangle 0, triangle 5])
      [demo_point 15, demo_point 18] []) = Inr ()"
    by code_simp
  then have c: "cell_plot demo_world (demo_ui [triangle 0, triangle 5])
      [demo_point 15, demo_point 18] [] =
      (Inr (), snd (cell_plot demo_world (demo_ui [triangle 0, triangle 5])
      [demo_point 15, demo_point 18] []))"
    by (simp add: prod_eq_iff)
  note t = two_plots [OF run_pair, where x = demo_world and u = two_triangles
      and rsp = Ret_none and g' = "[demo_point 15, demo_point 18]"
      and w = "demo_ui [triangle 0, triangle 5]" and gdf = "[demo_point 15, demo_point 18]" and k = "[]"
      and v = "()" and k' = "snd (cell_plot demo_world (demo_ui [triangle 0, triangle 5])
      [demo_point 15, demo_point 18] [])"]
  from t [THEN conjunct2, THEN conjunct1, THEN mp, OF s]
  have a: "figures (snd (notebook demo_world two_triangles [])) = [1, 2]"
    and b: "drawn (snd (notebook demo_world two_triangles [])) =
     [Plt_subplots 1, Ax_plot 1 (PList []) (PList []) ''r.'', Plt_subplots 2,
      Ax_scatter 2 (PList []) (PList []) (PList []),
      Ax_plot 2 (PList []) (PList []) ''r'', Ax_plot 2 (PList []) (PList []) ''r'',
      Fig_colorbar 2]"
    by (simp_all add: n numeral_2_eq_2)
  note e = t [THEN conjunct2, THEN conjunct2, THEN conjunct1, THEN mp, OF r, THEN conjunct2]
  note d = t [THEN conjunct2, THEN conjunct2, THEN conjunct2, THEN mp, OF c]
  show ?thesis
    by (intro conjI) (rule r s p q a b e f d)+
qed

subsection \<open>The order of the steps\<close>

lemma steps_plan_loop:
  "List.map_filter step_of (plan_loop w ps) =
     concat (replicate (length ps) [Call_endpoint, Receive_table])"
  by (induction ps) (simp_all add: plan_loop_def map_filter_def)

lemma steps_plan_outlines:
  "List.map_filter step_of (plan_outlines ps) = replicate (2 * length ps) Render_plots"
  by (induction ps) (simp_all add: plan_outlines_def map_filter_def)

lemma steps_plan_plot:
  "\<exists>k. List.map_filter step_of (plan_plot w) = replicate (Suc k) Render_plots"
proof -
  have "\<forall>s \<in> set (List.map_filter step_of (plan_plot w)). s = Render_plots"
    by (auto simp: plan_plot_def map_filter_append steps_plan_outlines
        ground_tracks_decoration_def heights_decoration_def)
  then have r: "replicate (length (List.map_filter step_of (plan_plot w))) Render_plots =
      List.map_filter step_of (plan_plot w)"
    by (rule replicate_length_same)
  have "List.map_filter step_of (plan_plot w) \<noteq> []"
    by (simp add: plan_plot_def map_filter_append)
  then obtain k where "length (List.map_filter step_of (plan_plot w)) = Suc k"
    by (cases "List.map_filter step_of (plan_plot w)") auto
  with r show ?thesis by metis
qed

lemma steps_plan:
  "\<exists>k. List.map_filter step_of (plan u) =
     [Set_widgets, Set_widgets, Draw_polygons, Draw_polygons] @
     concat (replicate (length (regions (at_request u))) [Call_endpoint, Receive_table]) @
     replicate (Suc k) Render_plots @ [Persist_table, Reload_table]"
proof -
  from steps_plan_plot [of "at_plot u"] obtain k where
    "List.map_filter step_of (plan_plot (at_plot u)) = replicate (Suc k) Render_plots" by blast
  then have "List.map_filter step_of (plan u) =
     [Set_widgets, Set_widgets, Draw_polygons, Draw_polygons] @
     concat (replicate (length (regions (at_request u))) [Call_endpoint, Receive_table]) @
     replicate (Suc k) Render_plots @ [Persist_table, Reload_table]"
    by (simp add: plan_def map_filter_append steps_plan_loop
      plan_imports_def plan_options_def plan_map_def plan_request_def plan_save_def plan_load_def)
  then show ?thesis by blast
qed

lemma remdups_adj_rounds:
  "a \<noteq> Call_endpoint \<Longrightarrow> a \<noteq> b \<Longrightarrow> b \<noteq> Receive_table \<Longrightarrow>
   remdups_adj (a # concat (replicate n [Call_endpoint, Receive_table]) @ b # ys) =
   a # concat (replicate n [Call_endpoint, Receive_table]) @ remdups_adj (b # ys)"
  by (induction n arbitrary: a) simp_all

lemma remdups_adj_render:
  "remdups_adj (replicate (Suc k) Render_plots @ [Persist_table, Reload_table]) =
     [Render_plots, Persist_table, Reload_table]"
  by (induction k) simp_all

lemma remdups_adj_steps_plan:
  "remdups_adj (List.map_filter step_of (plan u)) = flow (length (regions (at_request u)))"
proof -
  from steps_plan [of u] obtain k where k: "List.map_filter step_of (plan u) =
     [Set_widgets, Set_widgets, Draw_polygons, Draw_polygons] @
     concat (replicate (length (regions (at_request u))) [Call_endpoint, Receive_table]) @
     replicate (Suc k) Render_plots @ [Persist_table, Reload_table]" by blast
  have "remdups_adj (Draw_polygons #
      concat (replicate (length (regions (at_request u))) [Call_endpoint, Receive_table]) @
      Render_plots # replicate k Render_plots @ [Persist_table, Reload_table]) =
    Draw_polygons #
      concat (replicate (length (regions (at_request u))) [Call_endpoint, Receive_table]) @
      remdups_adj (Render_plots # replicate k Render_plots @ [Persist_table, Reload_table])"
    by (rule remdups_adj_rounds) simp_all
  with remdups_adj_render [of k] show ?thesis
    by (simp add: k flow_def)
qed

lemma sorted_steps_plan:
  assumes "length (regions (at_request u)) \<le> 1"
  shows "sorted (map step_index (List.map_filter step_of (plan u)))"
proof -
  from steps_plan [of u] obtain k where k: "List.map_filter step_of (plan u) =
     [Set_widgets, Set_widgets, Draw_polygons, Draw_polygons] @
     concat (replicate (length (regions (at_request u))) [Call_endpoint, Receive_table]) @
     replicate (Suc k) Render_plots @ [Persist_table, Reload_table]" by blast
  from assms have "regions (at_request u) = [] \<or> (\<exists>p. regions (at_request u) = [p])"
    by (cases "regions (at_request u)") auto
  then show ?thesis
    by (auto simp: k sorted_append)
qed

lemma run_steps: "steps h = List.map_filter step_of (shape h)"
  unfolding steps_def by (rule map_filter_shape) (rule step_of_blank)

text \<open>
  Claim C3, as stated: the steps run in the fixed order of the flow, and no later step
  runs before an earlier one. With two polygons drawn this fails: the endpoint is
  called for the second polygon after the table of the first one has been received.
\<close>

theorem steps_out_of_order:
  "fst (notebook demo_world two_triangles []) = Inr [demo_point 15, demo_point 18] \<and>
   remdups_adj (steps (snd (notebook demo_world two_triangles []))) =
     [Set_widgets, Draw_polygons, Call_endpoint, Receive_table, Call_endpoint, Receive_table,
      Render_plots, Persist_table, Reload_table] \<and>
   \<not> in_order (steps (snd (notebook demo_world two_triangles [])))"
  by code_simp

text \<open>
  Claim C3, amended. The steps run in this order: the widgets are set, the polygons
  are drawn, then for each polygon in drawing order the endpoint is called with the
  record assembled for it and its table is received, then the plots are rendered, the
  table is saved and it is loaded. The steps of every run are a beginning of this
  flow, and the whole flow when the run completes; with at most one polygon no later
  step runs before an earlier one.
\<close>

theorem steps_per_polygon:
  assumes run: "notebook x u [] = (r, h)"
  shows "prefix (remdups_adj (steps h)) (flow (length (regions (at_request u)))) \<and>
     (r = Inr g \<longrightarrow>
        remdups_adj (steps h) = flow (length (regions (at_request u)))) \<and>
     (length (regions (at_request u)) \<le> 1 \<longrightarrow> in_order (steps h))"
proof -
  from map_filter_prefix [OF run_follows(1) [OF run], of step_of]
  have p: "prefix (steps h) (List.map_filter step_of (plan u))" by (simp add: run_steps)
  from prefix_remdups_adj [OF this]
  have a: "prefix (remdups_adj (steps h)) (flow (length (regions (at_request u))))"
    by (simp add: remdups_adj_steps_plan)
  have b: "remdups_adj (steps h) = flow (length (regions (at_request u)))" if "r = Inr g"
    using run_follows(2) [OF run that] by (simp add: run_steps remdups_adj_steps_plan)
  have c: "in_order (steps h)" if "length (regions (at_request u)) \<le> 1"
    unfolding in_order_def
    using sorted_antimono_prefix [OF map_mono_prefix [OF p] sorted_steps_plan [OF that]] .
  from a b c show ?thesis by blast
qed

theorem steps_per_polygon_witness:
  "fst (notebook demo_world two_triangles []) = Inr [demo_point 15, demo_point 18] \<and>
   remdups_adj (steps (snd (notebook demo_world two_triangles []))) = flow 2 \<and>
   length (regions (at_request one_triangle)) \<le> 1 \<and>
   in_order (steps (snd (notebook demo_world one_triangle [])))"
proof -
  have r: "fst (notebook demo_world two_triangles []) = Inr [demo_point 15, demo_point 18]"
    by code_simp
  have n: "length (regions (at_request two_triangles)) = 2"
    "length (regions (at_request one_triangle)) \<le> 1"
    by (simp_all add: two_triangles_def one_triangle_def demo_session_def demo_ui_def)
  from steps_per_polygon [OF run_pair, where x = demo_world and u = two_triangles
      and g = "[demo_point 15, demo_point 18]"] r
    steps_per_polygon [OF run_pair, where x = demo_world and u = one_triangle] n
  show ?thesis by simp
qed

subsection \<open>The result table\<close>

lemma tables_simps [simp]:
  "tables [] = []"
  "tables (t @ t') = tables t @ tables t'"
  "tables (Ev (Icesat2_atl06p p a r) (Ret_frame g) # t) = g # tables t"
  "tables (Ev (Gdf_append g g') rsp # t) = tables t"
  "tables (Ev (Gdf_append_lookup g) rsp # t) = tables t"
  "tables (Ev Icesat2_emptyframe rsp # t) = tables t"
  by (simp_all add: tables_def map_filter_def)

lemma requests_simps [simp]:
  "requests [] = []"
  "requests (t @ t') = requests t @ requests t'"
  "requests (Ev (Icesat2_atl06p p a r) rsp # t) = p # requests t"
  "requests (Ev (Gdf_append g g') rsp # t) = requests t"
  "requests (Ev (Gdf_append_lookup g) rsp # t) = requests t"
  "requests (Ev Icesat2_emptyframe rsp # t) = requests t"
  by (simp_all add: requests_def map_filter_def)

lemma request_loop_result:
  assumes app: "appends_with x e0 app"
  shows "request_loop x w a rl ps (g, pm) h = (Inr (gdf, parms), h') \<Longrightarrow>
     \<exists>t. h' = h @ t \<and> gdf = foldl app g (tables t) \<and> length (tables t) = length ps \<and>
         requests t = map (build_parms w) ps"
proof (induction ps arbitrary: g pm h)
  case Nil
  then show ?case by (simp add: ret_def)
next
  case (Cons poly ps)
  let ?c = "Icesat2_atl06p (build_parms w poly) a rl"
  from Cons.prems have l: "world_unit x h (Gdf_append_lookup g) = None"
    by (cases "world_unit x h (Gdf_append_lookup g)") (simp_all add: bnd_def call_unit_def Let_def)
  let ?h0 = "h @ [Ev (Gdf_append_lookup g) Ret_none]"
  from Cons.prems l obtain t1 where t1: "world_frame x ?h0 ?c = Inr t1"
    by (cases "world_frame x ?h0 ?c") (simp_all add: bnd_def call_unit_def call_frame_def Let_def)
  let ?h1 = "?h0 @ [Ev ?c (Ret_frame t1)]"
  from app have a: "world_frame x ?h1 (Gdf_append g t1) = Inr (app g t1)"
    by (simp add: appends_with_def)
  let ?h2 = "?h1 @ [Ev (Gdf_append g t1) (Ret_frame (app g t1))]"
  from Cons.prems l t1 a
  have "request_loop x w a rl ps (app g t1, Some (build_parms w poly)) ?h2 =
      (Inr (gdf, parms), h')"
    by (simp add: bnd_def call_unit_def call_frame_def Let_def)
  from Cons.IH [OF this] obtain t where
    t: "h' = ?h2 @ t" "gdf = foldl app (app g t1) (tables t)" "length (tables t) = length ps"
      "requests t = map (build_parms w) ps" by blast
  show ?case
    by (rule exI [of _ "[Ev (Gdf_append_lookup g) Ret_none, Ev ?c (Ret_frame t1),
        Ev (Gdf_append g t1) (Ret_frame (app g t1))] @ t"])
      (use t in simp)
qed

text \<open>
  Claim C2. The final result table is the fold by append, from the empty frame, of the
  tables that the processing endpoint returned for the polygons, in drawing order, one
  request being transmitted for each polygon; with no region drawn no request is
  transmitted and the result table is the empty frame. Here \<^verbatim>\<open>__emptyframe\<close> and
  \<^verbatim>\<open>append\<close> are taken to be functions of their arguments (\<open>appends_with\<close>).
\<close>

theorem result_table:
  assumes app: "appends_with x e0 app" and run: "cell_request x w h = (r, h')"
  shows "(r = Inr (gdf, parms) \<longrightarrow>
            gdf = foldl app e0 (tables (drop (length h) h')) \<and>
            length (tables (drop (length h) h')) = length (regions w) \<and>
            requests (drop (length h) h') = map (build_parms w) (regions w)) \<and>
         (regions w = [] \<longrightarrow>
            r = Inr (e0, None) \<and> h' = h @ [Ev Icesat2_emptyframe (Ret_frame e0)] \<and>
            requests (drop (length h) h') = [])"
proof -
  from app have e: "world_frame x h Icesat2_emptyframe = Inr e0"
    by (simp add: appends_with_def)
  let ?h0 = "h @ [Ev Icesat2_emptyframe (Ret_frame e0)]"
  from run e have loop:
    "request_loop x w (asset_value w) (release_value w) (regions w) (e0, None) ?h0 = (r, h')"
    by (simp add: cell_request_def bnd_def call_frame_def Let_def)
  have a: "gdf = foldl app e0 (tables (drop (length h) h')) \<and>
            length (tables (drop (length h) h')) = length (regions w) \<and>
            requests (drop (length h) h') = map (build_parms w) (regions w)"
    if "r = Inr (gdf, parms)"
  proof -
    from request_loop_result [OF app loop [unfolded that]] obtain t where
      "h' = ?h0 @ t" "gdf = foldl app e0 (tables t)" "length (tables t) = length (regions w)"
      "requests t = map (build_parms w) (regions w)" by blast
    then show ?thesis by simp
  qed
  have b: "r = Inr (e0, None) \<and> h' = h @ [Ev Icesat2_emptyframe (Ret_frame e0)] \<and>
            requests (drop (length h) h') = []"
    if "regions w = []"
    using loop that by (auto simp: ret_def)
  from a b show ?thesis by blast
qed

lemma demo_appends: "appends_with demo_world [] (@)"
  by (simp add: appends_with_def demo_world_def demo_frame_def)

theorem result_table_witness:
  "appends_with demo_world [] (@) \<and>
   cell_request demo_world (demo_ui [triangle 0, triangle 5]) [] =
     (Inr ([demo_point 2, demo_point 5],
        Some (build_parms (demo_ui [triangle 0, triangle 5]) (triangle 5))),
      snd (cell_request demo_world (demo_ui [triangle 0, triangle 5]) [])) \<and>
   tables (snd (cell_request demo_world (demo_ui [triangle 0, triangle 5]) [])) =
     [[demo_point 2], [demo_point 5]] \<and>
   [demo_point 2, demo_point 5] = foldl (@) [] [[demo_point 2], [demo_point 5]] \<and>
   requests (snd (cell_request demo_world (demo_ui [triangle 0, triangle 5]) [])) =
     [build_parms (demo_ui [triangle 0, triangle 5]) (triangle 0),
      build_parms (demo_ui [triangle 0, triangle 5]) (triangle 5)] \<and>
   cell_request demo_world (demo_ui []) [] =
     (Inr ([], None), [Ev Icesat2_emptyframe (Ret_frame [])])"
proof -
  have run: "cell_request demo_world (demo_ui [triangle 0, triangle 5]) [] =
     (Inr ([demo_point 2, demo_point 5],
        Some (build_parms (demo_ui [triangle 0, triangle 5]) (triangle 5))),
      snd (cell_request demo_world (demo_ui [triangle 0, triangle 5]) []))"
    by (rule prod_eqI) (simp, code_simp, simp)
  have t: "tables (snd (cell_request demo_world (demo_ui [triangle 0, triangle 5]) [])) =
     [[demo_point 2], [demo_point 5]]"
    by code_simp
  have e: "cell_request demo_world (demo_ui []) [] =
     (Inr ([], None), [Ev Icesat2_emptyframe (Ret_frame [])])"
    by code_simp
  have rs: "regions (demo_ui [triangle 0, triangle 5]) = [triangle 0, triangle 5]"
    by (simp add: demo_ui_def)
  from result_table [OF demo_appends run,
      where gdf = "[demo_point 2, demo_point 5]"
      and parms = "Some (build_parms (demo_ui [triangle 0, triangle 5]) (triangle 5))"]
    demo_appends run t e rs
  show ?thesis by simp
qed

subsection \<open>Invariants of the events of a computation\<close>

lemma yields_bnd:
  assumes m: "yields m P E" and k: "\<And>v. P v \<Longrightarrow> yields (k v) Q E"
  shows "yields (bnd m k) Q E"
  unfolding yields_def
proof
  fix h
  from m obtain t where t: "snd (m h) = h @ t" "list_all E t"
    "case fst (m h) of Inr v \<Rightarrow> P v | Inl e \<Rightarrow> True"
    unfolding yields_def by blast
  show "\<exists>t. snd (bnd m k h) = h @ t \<and> list_all E t \<and>
      (case fst (bnd m k h) of Inr v \<Rightarrow> Q v | Inl e \<Rightarrow> True)"
  proof (cases "fst (m h)")
    case (Inl e)
    then have "bnd m k h = (Inl e, h @ t)"
      using t(1) by (cases "m h") (simp add: bnd_def)
    with t show ?thesis by simp
  next
    case (Inr v)
    then have b: "bnd m k h = k v (h @ t)"
      using t(1) by (cases "m h") (simp add: bnd_def)
    from Inr t(3) have "P v" by simp
    from k [OF this] obtain t' where "snd (k v (h @ t)) = (h @ t) @ t'" "list_all E t'"
      "case fst (k v (h @ t)) of Inr v \<Rightarrow> Q v | Inl e \<Rightarrow> True"
      unfolding yields_def by blast
    with t(2) b show ?thesis by (intro exI [of _ "t @ t'"]) simp
  qed
qed

lemma yields_follows:
  assumes f: "follows m p" and E: "\<And>ev. blank (call_of ev) \<in> set p \<Longrightarrow> E ev"
  shows "yields m (\<lambda>_. True) E"
  unfolding yields_def
proof
  fix h
  from f obtain t where t: "snd (m h) = h @ t" "prefix (shape t) p"
    unfolding follows_def by blast
  have "list_all E t"
    unfolding list_all_iff
  proof
    fix ev assume "ev \<in> set t"
    then have "blank (call_of ev) \<in> set (shape t)" by (simp add: shape_def)
    with set_mono_prefix [OF t(2)] show "E ev" by (blast intro: E)
  qed
  with t(1) show "\<exists>t. snd (m h) = h @ t \<and> list_all E t \<and>
      (case fst (m h) of Inr v \<Rightarrow> True | Inl e \<Rightarrow> True)"
    by (auto split: sum.splits)
qed

lemma yields_call_unit_any: "(\<And>rsp. E (Ev c rsp)) \<Longrightarrow> Q () \<Longrightarrow> yields (call_unit x c) Q E"
  by (auto simp: yields_def call_unit_def split: option.splits)

lemma run_yields:
  assumes y: "yields m Q E" and run: "m h = (r, h')"
  shows "list_all E (drop (length h) h')" and "\<And>v. r = Inr v \<Longrightarrow> Q v"
proof -
  from y obtain t where t: "snd (m h) = h @ t" "list_all E t"
    "case fst (m h) of Inr v \<Rightarrow> Q v | Inl e \<Rightarrow> True"
    unfolding yields_def by blast
  from t(1,2) run show "list_all E (drop (length h) h')" by simp
  from t(3) run show "\<And>v. r = Inr v \<Longrightarrow> Q v" by simp
qed

lemma each_append: "each E h (t @ t') = (each E h t \<and> each E (h @ t) t')"
  by (induction t arbitrary: h) simp_all

lemma each_all: "(\<And>ev k. ev \<in> set t \<Longrightarrow> E k ev) \<Longrightarrow> each E h t"
  by (induction t arbitrary: h) simp_all

lemma each_mem:
  "each E h t \<Longrightarrow> ev \<in> set t \<Longrightarrow> \<exists>a b. t = a @ ev # b \<and> E (h @ a) ev"
proof (induction t arbitrary: h)
  case Nil
  then show ?case by simp
next
  case (Cons ev' t)
  show ?case
  proof (cases "ev = ev'")
    case True
    with Cons.prems(1) have "ev' # t = [] @ ev # t \<and> E (h @ []) ev" by simp
    then show ?thesis by blast
  next
    case False
    with Cons.prems have "each E (h @ [ev']) t" "ev \<in> set t" by simp_all
    from Cons.IH [OF this] obtain a b where "t = a @ ev # b" "E ((h @ [ev']) @ a) ev" by blast
    then have "ev' # t = (ev' # a) @ ev # b \<and> E (h @ ev' # a) ev" by simp
    then show ?thesis by blast
  qed
qed

lemma emits_bnd:
  assumes m: "emits m P E" and k: "\<And>v. P v \<Longrightarrow> emits (k v) Q E"
  shows "emits (bnd m k) Q E"
  unfolding emits_def
proof
  fix h
  from m obtain t where t: "snd (m h) = h @ t" "each E h t"
    "case fst (m h) of Inr v \<Rightarrow> P v | Inl e \<Rightarrow> True"
    unfolding emits_def by blast
  show "\<exists>t. snd (bnd m k h) = h @ t \<and> each E h t \<and>
      (case fst (bnd m k h) of Inr v \<Rightarrow> Q v | Inl e \<Rightarrow> True)"
  proof (cases "fst (m h)")
    case (Inl e)
    then have "bnd m k h = (Inl e, h @ t)"
      using t(1) by (cases "m h") (simp add: bnd_def)
    with t show ?thesis by simp
  next
    case (Inr v)
    then have b: "bnd m k h = k v (h @ t)"
      using t(1) by (cases "m h") (simp add: bnd_def)
    from Inr t(3) have "P v" by simp
    from k [OF this] obtain t' where "snd (k v (h @ t)) = (h @ t) @ t'" "each E (h @ t) t'"
      "case fst (k v (h @ t)) of Inr v \<Rightarrow> Q v | Inl e \<Rightarrow> True"
      unfolding emits_def by blast
    with t(2) b show ?thesis by (intro exI [of _ "t @ t'"]) (simp add: each_append)
  qed
qed

lemma emits_yields:
  assumes "yields m Q (\<lambda>ev. \<forall>k. E k ev)"
  shows "emits m Q E"
  unfolding emits_def
proof
  fix h
  from assms obtain t where t: "snd (m h) = h @ t" "list_all (\<lambda>ev. \<forall>k. E k ev) t"
    "case fst (m h) of Inr v \<Rightarrow> Q v | Inl e \<Rightarrow> True"
    unfolding yields_def by blast
  from t(2) have "each E h t"
    by (intro each_all) (simp add: list_all_iff)
  with t(1,3) show "\<exists>t. snd (m h) = h @ t \<and> each E h t \<and>
      (case fst (m h) of Inr v \<Rightarrow> Q v | Inl e \<Rightarrow> True)" by blast
qed

lemma emits_const: "emits m (\<lambda>_. True) E \<Longrightarrow> C \<Longrightarrow> emits m (\<lambda>_. C) E"
  by (auto simp: emits_def split: sum.splits)

lemma run_emits:
  assumes y: "emits m Q E" and run: "m h = (r, h')"
  shows "each E h (drop (length h) h')" and "\<And>v. r = Inr v \<Longrightarrow> Q v"
proof -
  from y obtain t where t: "snd (m h) = h @ t" "each E h t"
    "case fst (m h) of Inr v \<Rightarrow> Q v | Inl e \<Rightarrow> True"
    unfolding emits_def by blast
  from t(1,2) run show "each E h (drop (length h) h')" by simp
  from t(3) run show "\<And>v. r = Inr v \<Longrightarrow> Q v" by simp
qed

subsection \<open>Dictionaries\<close>

lemma map_of_dict_set: "map_of (dict_set d k v) = (map_of d)(k \<mapsto> v)"
  by (induction d k v rule: dict_set.induct) (auto simp: fun_eq_iff)

lemma keys_dict_set:
  "map fst (dict_set d k v) = (if k \<in> set (map fst d) then map fst d else map fst d @ [k])"
  by (induction d k v rule: dict_set.induct) auto

lemma parms_with_version:
  "dict_set (dict_set (build_parms w poly) ''version'' v) ''commit'' c =
     build_parms w poly @ [(''version'', v), (''commit'', c)]"
  by (simp add: dict_literal_parms)

subsection \<open>The saved parameters\<close>

lemma request_loop_parms:
  "request_loop x w a rl ps (g, pm) h = (Inr (gdf, parms), h') \<Longrightarrow>
   parms = (if ps = [] then pm else Some (build_parms w (last ps)))"
proof (induction ps arbitrary: g pm h)
  case Nil
  then show ?case by (simp add: ret_def)
next
  case (Cons poly ps)
  from Cons.prems obtain g' h1 where
    "request_loop x w a rl ps (g', Some (build_parms w poly)) h1 = (Inr (gdf, parms), h')"
    by (auto simp: bnd_def call_unit_def call_frame_def Let_def split: sum.splits option.splits)
  from Cons.IH [OF this] show ?case by simp
qed

lemma cell_request_parms:
  "cell_request x w h = (Inr (gdf, parms), h') \<Longrightarrow> parms = last_parms w"
  by (auto simp: cell_request_def bnd_def call_frame_def Let_def last_parms_def
      split: sum.splits dest: request_loop_parms)

lemma no_save_request: "Io_to_file g f fm d pd rs \<notin> set (plan_request w)"
  using set_plan_loop [of w "regions w"] by (auto simp: plan_request_def)

lemma no_save_plot: "Io_to_file g f fm d pd rs \<notin> set (plan_plot w)"
  using set_plan_outlines [of "regions w"]
  by (auto simp: plan_plot_def ground_tracks_decoration_def heights_decoration_def)

lemma cell_save_unbound:
  assumes "world_val x h Icesat2_get_version = Inr ver"
    and "subscript ver ''icesat2'' = Inr i" and "subscript i ''version'' = Inr v"
  shows "cell_save x w gdf None h =
     (Inl (NameError ''parms''), h @ [Ev Icesat2_get_version (Ret_val ver)])"
  using assms
  by (simp add: cell_save_def bnd_def call_val_def pure_step_def raise_def)

lemma saves_version_not_save:
  assumes "\<And>g f fm d p rs. blank (call_of ev) \<noteq> Io_to_file g f fm d p rs"
  shows "saves_version parms k ev"
proof (cases "call_of ev")
  case (Io_to_file g f fm d p rs)
  with assms [of "()" f fm d "[]" rs] show ?thesis by simp
qed (simp_all add: saves_version_def)

lemma emits_no_save:
  assumes "follows m p" and "\<And>g f fm d pd rs. Io_to_file g f fm d pd rs \<notin> set p"
  shows "emits m (\<lambda>_. True) (saves_version parms)"
proof (rule emits_yields, rule yields_follows [OF assms(1)])
  fix ev :: "'a event"
  assume "blank (call_of ev) \<in> set p"
  with assms(2) have "\<And>g f fm d p rs. blank (call_of ev) \<noteq> Io_to_file g f fm d p rs"
    by metis
  then show "\<forall>k. saves_version parms k ev"
    by (simp add: saves_version_not_save)
qed

lemma emits_cell_request:
  "emits (cell_request x w) (\<lambda>(gdf, parms). parms = last_parms w) (saves_version pm)"
proof -
  have y: "emits (cell_request x w) (\<lambda>_. True) (saves_version pm)"
    by (rule emits_no_save [OF follows_cell_request]) (rule no_save_request)
  show ?thesis
    unfolding emits_def
  proof
    fix h
    from y obtain t where t: "snd (cell_request x w h) = h @ t" "each (saves_version pm) h t"
      unfolding emits_def by blast
    have "case fst (cell_request x w h) of Inr (gdf, parms) \<Rightarrow> parms = last_parms w
        | Inl e \<Rightarrow> True"
      using cell_request_parms [of x w h]
      by (cases "cell_request x w h") (auto split: sum.splits)
    with t show "\<exists>t. snd (cell_request x w h) = h @ t \<and> each (saves_version pm) h t \<and>
        (case fst (cell_request x w h) of
           Inr v \<Rightarrow> (case v of (gdf, parms) \<Rightarrow> parms = last_parms w)
         | Inl e \<Rightarrow> True)" by blast
  qed
qed

lemma emits_cell_save:
  "emits (cell_save (x :: 'f ext) w gdf parms) (\<lambda>_. parms \<noteq> None) (saves_version parms)"
  unfolding emits_def
proof
  fix h :: "'f history"
  let ?g = "Icesat2_get_version"
  let ?goal = "\<lambda>res. \<exists>t. snd res = h @ t \<and> each (saves_version parms) h t \<and>
      (case fst res of Inr (v :: pydict) \<Rightarrow> parms \<noteq> None | Inl e \<Rightarrow> True)"
  show "?goal (cell_save x w gdf parms h)"
  proof (cases "world_val x h ?g")
    case (Inl e)
    then have "cell_save x w gdf parms h = (Inl e, h @ [Ev ?g (Raised e)])"
      by (simp add: cell_save_def bnd_def call_val_def)
    then show ?thesis by (simp add: saves_version_def)
  next
    case ver: (Inr ver)
    let ?h = "h @ [Ev ?g (Ret_val ver)]"
    have fail: "?goal (Inl e, ?h)" for e
      by (simp add: saves_version_def)
    show ?thesis
    proof (cases "subscript ver ''icesat2''")
      case (Inl e)
      with ver have "cell_save x w gdf parms h = (Inl e, ?h)"
        by (simp add: cell_save_def bnd_def call_val_def pure_step_def)
      with fail show ?thesis by simp
    next
      case i: (Inr i)
      show ?thesis
      proof (cases "subscript i ''version''")
        case (Inl e)
        with ver i have "cell_save x w gdf parms h = (Inl e, ?h)"
          by (simp add: cell_save_def bnd_def call_val_def pure_step_def)
        with fail show ?thesis by simp
      next
        case v: (Inr v)
        show ?thesis
        proof (cases parms)
          case None
          with ver i v have "cell_save x w gdf parms h = (Inl (NameError ''parms''), ?h)"
            by (simp add: cell_save_def bnd_def call_val_def pure_step_def raise_def)
          with fail show ?thesis by simp
        next
          case bound: (Some bound)
          show ?thesis
          proof (cases "subscript i ''commit''")
            case (Inl e)
            with ver i v bound have "cell_save x w gdf parms h = (Inl e, ?h)"
              by (simp add: cell_save_def bnd_def call_val_def pure_step_def)
            with fail show ?thesis by simp
          next
            case c: (Inr c)
            let ?p = "dict_set (dict_set bound ''version'' v) ''commit'' c"
            let ?s = "Io_to_file gdf (file_name w) (format w) ''pytables'' ?p (regions w)"
            have ok: "each (saves_version parms) h [Ev ?g (Ret_val ver), Ev ?s rsp]" for rsp
              using bound i v c by (auto simp: saves_version_def)
            show ?thesis
            proof (cases "world_unit x ?h ?s")
              case None
              with ver i v bound c
              have "cell_save x w gdf parms h = (Inr ?p, h @ [Ev ?g (Ret_val ver), Ev ?s Ret_none])"
                by (simp add: cell_save_def bnd_def call_val_def call_unit_def pure_step_def
                    ret_def Let_def)
              with ok [of Ret_none] bound show ?thesis by simp
            next
              case (Some e)
              with ver i v bound c
              have "cell_save x w gdf parms h =
                  (Inl e, h @ [Ev ?g (Ret_val ver), Ev ?s (Raised e)])"
                by (simp add: cell_save_def bnd_def call_val_def call_unit_def pure_step_def
                    Let_def)
              with ok [of "Raised e"] show ?thesis by simp
            qed
          qed
        qed
      qed
    qed
  qed
qed

lemma follows_cell_filesaver: "follows (cell_filesaver x) [Display ''SRwidgets.filesaver'']"
  unfolding cell_filesaver_def by (rule follows_unit) simp

lemma follows_cell_fileloader: "follows (cell_fileloader x) [Display ''SRwidgets.fileloader'']"
  unfolding cell_fileloader_def by (rule follows_unit) simp

lemma follows_cell_load: "follows (cell_load x w) (plan_load w)"
  unfolding cell_load_def plan_load_def by (rule follows_frame) simp

lemma emits_notebook_saves:
  "emits (notebook x u) (\<lambda>_. regions (at_request u) \<noteq> [])
     (saves_version (last_parms (at_request u)))"
  unfolding notebook_def
  apply (rule emits_bnd [OF emits_no_save [OF follows_cell_imports]])
   apply (simp add: plan_imports_def)
  apply (rule emits_bnd [OF emits_no_save [OF follows_cell_options]])
   apply (simp add: plan_options_def)
  apply (rule emits_bnd [OF emits_no_save [OF follows_cell_map]])
   apply (simp add: plan_map_def)
  apply (rule emits_bnd [OF emits_cell_request])
  apply (clarsimp simp only: split_paired_all prod.case)
  apply (rule emits_bnd [OF emits_no_save [OF follows_cell_plot]])
   apply (rule no_save_plot)
  apply (rule emits_bnd [OF emits_no_save [OF follows_cell_filesaver]])
   apply simp
  apply (rule emits_bnd [OF emits_cell_save])
  apply (rule emits_bnd [OF emits_no_save [OF follows_cell_fileloader]])
   apply simp
  apply (rule emits_const [OF emits_no_save [OF follows_cell_load]])
   apply (simp add: plan_load_def)
  apply (simp add: last_parms_def split: if_splits)
  done

text \<open>
  Claim C5. The save step saves, as the parameters of the file, the record of the last
  polygon only, with the keys \<^verbatim>\<open>version\<close> and \<^verbatim>\<open>commit\<close> added from the version of
  the service; and this needs at least one polygon: with none, the name \<^verbatim>\<open>parms\<close> is
  unbound, the save step fails and nothing is saved. In every run, a save call is made
  only when a polygon is drawn, and right after \<^verbatim>\<open>get_version\<close> has answered; the
  dictionary it carries is the record of the last drawn polygon followed by the keys
  \<^verbatim>\<open>version\<close> and \<^verbatim>\<open>commit\<close>, whose values are those under \<^verbatim>\<open>icesat2\<close> in that
  answer. A run without polygons ends in an exception and makes no save call; a run
  that completes has made one. For any bound record, the save cell stores the two
  values under the two keys and leaves every other key as it was; with \<^verbatim>\<open>parms\<close>
  unbound and the version read, the exception is the \<^verbatim>\<open>NameError\<close> of \<^verbatim>\<open>parms\<close>.
\<close>

theorem saved_parameters:
  assumes run: "notebook x u [] = (r, h)"
  shows "(Ev (Io_to_file g f fm d p rs) rsp \<in> set h \<longrightarrow>
            regions (at_request u) \<noteq> [] \<and>
            (\<exists>ver i v c pre post.
               h = pre @ [Ev Icesat2_get_version (Ret_val ver),
                          Ev (Io_to_file g f fm d p rs) rsp] @ post \<and>
               subscript ver ''icesat2'' = Inr i \<and> subscript i ''version'' = Inr v \<and>
               subscript i ''commit'' = Inr c \<and>
               p = build_parms (at_request u) (last (regions (at_request u))) @
                     [(''version'', v), (''commit'', c)] \<and>
               map_of p ''version'' = Some v \<and> map_of p ''commit'' = Some c \<and>
               map fst p =
                 [''poly'', ''srt'', ''len'', ''res'', ''cnf'', ''atl08_class'', ''maxi'', ''ats'',
                  ''cnt'', ''H_min_win'', ''sigma_r_max'', ''version'', ''commit''])) \<and>
         (regions (at_request u) = [] \<longrightarrow> (\<exists>e. r = Inl e) \<and> \<not> list_ex is_save h) \<and>
         (r = Inr g' \<longrightarrow> list_ex is_save h) \<and>
         (cell_save x w gdf (Some bound) k = (Inr p', k') \<longrightarrow>
            (\<exists>ver i v c. world_val x k Icesat2_get_version = Inr ver \<and>
               subscript ver ''icesat2'' = Inr i \<and> subscript i ''version'' = Inr v \<and>
               subscript i ''commit'' = Inr c \<and>
               p' = dict_set (dict_set bound ''version'' v) ''commit'' c \<and>
               map_of p' = (map_of bound)(''version'' \<mapsto> v, ''commit'' \<mapsto> c) \<and>
               k' = k @ [Ev Icesat2_get_version (Ret_val ver),
                 Ev (Io_to_file gdf (file_name w) (format w) ''pytables'' p' (regions w))
                   Ret_none])) \<and>
         (world_val x k Icesat2_get_version = Inr ver' \<and>
          subscript ver' ''icesat2'' = Inr i' \<and> subscript i' ''version'' = Inr v' \<longrightarrow>
            cell_save x w gdf None k =
              (Inl (NameError ''parms''), k @ [Ev Icesat2_get_version (Ret_val ver')]))"
proof -
  note y = run_emits [OF emits_notebook_saves run, simplified]
  have a: "regions (at_request u) \<noteq> [] \<and>
            (\<exists>ver i v c pre post.
               h = pre @ [Ev Icesat2_get_version (Ret_val ver),
                          Ev (Io_to_file g f fm d p rs) rsp] @ post \<and>
               subscript ver ''icesat2'' = Inr i \<and> subscript i ''version'' = Inr v \<and>
               subscript i ''commit'' = Inr c \<and>
               p = build_parms (at_request u) (last (regions (at_request u))) @
                     [(''version'', v), (''commit'', c)] \<and>
               map_of p ''version'' = Some v \<and> map_of p ''commit'' = Some c \<and>
               map fst p =
                 [''poly'', ''srt'', ''len'', ''res'', ''cnf'', ''atl08_class'', ''maxi'', ''ats'',
                  ''cnt'', ''H_min_win'', ''sigma_r_max'', ''version'', ''commit''])"
    if "Ev (Io_to_file g f fm d p rs) rsp \<in> set h"
  proof -
    from each_mem [OF y(1) that] obtain a b where
      h: "h = a @ Ev (Io_to_file g f fm d p rs) rsp # b"
      and s: "saves_version (last_parms (at_request u)) a (Ev (Io_to_file g f fm d p rs) rsp)"
      by auto
    from s obtain bound ver i v c pre where
      b: "last_parms (at_request u) = Some bound"
        "a = pre @ [Ev Icesat2_get_version (Ret_val ver)]"
        "subscript ver ''icesat2'' = Inr i" "subscript i ''version'' = Inr v"
        "subscript i ''commit'' = Inr c"
        "p = dict_set (dict_set bound ''version'' v) ''commit'' c"
      by (auto simp: saves_version_def)
    from b(1) have ne: "regions (at_request u) \<noteq> []"
      and bound: "bound = build_parms (at_request u) (last (regions (at_request u)))"
      by (auto simp: last_parms_def split: if_splits)
    from b(6) bound
    have p: "p = build_parms (at_request u) (last (regions (at_request u))) @
        [(''version'', v), (''commit'', c)]"
      by (simp only: parms_with_version)
    have "h = pre @ [Ev Icesat2_get_version (Ret_val ver),
        Ev (Io_to_file g f fm d p rs) rsp] @ b"
      using h b(2) by simp
    moreover from p have "map_of p ''version'' = Some v" "map_of p ''commit'' = Some c"
      "map fst p =
         [''poly'', ''srt'', ''len'', ''res'', ''cnf'', ''atl08_class'', ''maxi'', ''ats'',
          ''cnt'', ''H_min_win'', ''sigma_r_max'', ''version'', ''commit'']"
      by (simp_all add: dict_literal_parms)
    ultimately show ?thesis using ne b(3) b(4) b(5) p
      by (intro conjI exI) assumption+
  qed
  have b: "(\<exists>e. r = Inl e) \<and> \<not> list_ex is_save h" if "regions (at_request u) = []"
  proof -
    from y(2) that have "\<exists>e. r = Inl e" by (cases r) auto
    moreover have "\<not> list_ex is_save h"
    proof
      assume "list_ex is_save h"
      then obtain ev where ev: "ev \<in> set h" "is_save ev" by (auto simp: list_ex_iff)
      then obtain g f fm d p rs rsp where e: "ev = Ev (Io_to_file g f fm d p rs) rsp"
        by (cases ev rule: is_save.cases) auto
      from each_mem [OF y(1) ev(1)] obtain a where
        "saves_version (last_parms (at_request u)) a ev" by auto
      with e that show False
        by (auto simp: saves_version_def last_parms_def)
    qed
    ultimately show ?thesis by simp
  qed
  have c: "list_ex is_save h" if "r = Inr g'"
  proof -
    from that run_follows(2) [OF run] have s: "shape h = plan u" by simp
    have "Io_to_file () (file_name (at_save u)) (format (at_save u)) ''pytables'' []
        (regions (at_save u)) \<in> set (shape h)"
      unfolding s by (simp add: plan_def plan_save_def)
    from shape_in_event [OF this] obtain c' a' where
      "Ev c' a' \<in> set h" "blank c' = Io_to_file () (file_name (at_save u))
        (format (at_save u)) ''pytables'' [] (regions (at_save u))" by blast
    with blank_save [OF this(2)] show ?thesis
      by (auto simp: list_ex_iff intro!: bexI [of _ "Ev c' a'"])
  qed
  have d: "\<exists>ver i v c. world_val x k Icesat2_get_version = Inr ver \<and>
               subscript ver ''icesat2'' = Inr i \<and> subscript i ''version'' = Inr v \<and>
               subscript i ''commit'' = Inr c \<and>
               p' = dict_set (dict_set bound ''version'' v) ''commit'' c \<and>
               map_of p' = (map_of bound)(''version'' \<mapsto> v, ''commit'' \<mapsto> c) \<and>
               k' = k @ [Ev Icesat2_get_version (Ret_val ver),
                 Ev (Io_to_file gdf (file_name w) (format w) ''pytables'' p' (regions w))
                   Ret_none]"
    if "cell_save x w gdf (Some bound) k = (Inr p', k')"
    using cell_save_done [OF that] by (auto simp: map_of_dict_set)
  have e: "cell_save x w gdf None k =
      (Inl (NameError ''parms''), k @ [Ev Icesat2_get_version (Ret_val ver')])"
    if "world_val x k Icesat2_get_version = Inr ver' \<and>
        subscript ver' ''icesat2'' = Inr i' \<and> subscript i' ''version'' = Inr v'"
    using that by (intro cell_save_unbound [of x k ver' i' v']) simp_all
  show ?thesis
    apply (intro conjI)
    subgoal by (rule impI) (rule a)
    subgoal by (rule impI) (rule b)
    subgoal by (rule impI) (rule c)
    subgoal by (rule impI) (rule d)
    subgoal by (rule impI) (rule e)
    done
qed

theorem saved_parameters_witness:
  "Ev (Io_to_file [demo_point 15, demo_point 18] ''ATL06-SR.h5'' HDF5 ''pytables''
        [(''poly'', triangle 5), (''srt'', Scalar (SInt 0)), (''len'', Scalar (SInt 40)),
         (''res'', Scalar (SInt 20)), (''cnf'', Scalar (SInt 4)),
         (''atl08_class'', PList [Scalar (SStr ''atl08_ground'')]),
         (''maxi'', Scalar (SInt 1)), (''ats'', Scalar (SFloat 5 2)),
         (''cnt'', Scalar (SInt 10)), (''H_min_win'', Scalar (SFloat 3 0)),
         (''sigma_r_max'', Scalar (SFloat 5 0)),
         (''version'', Scalar (SStr ''v1.0.7'')), (''commit'', Scalar (SStr ''abc123''))]
        [triangle 0, triangle 5]) Ret_none
     \<in> set (snd (notebook demo_world two_triangles [])) \<and>
   Ev Icesat2_get_version
      (Ret_val (PDict [(''icesat2'',
         PDict [(''version'', Scalar (SStr ''v1.0.7'')),
                (''commit'', Scalar (SStr ''abc123''))])]))
     \<in> set (snd (notebook demo_world two_triangles [])) \<and>
   regions (at_request two_triangles) \<noteq> [] \<and>
   last (regions (at_request two_triangles)) = triangle 5 \<and>
   fst (notebook demo_world two_triangles []) = Inr [demo_point 15, demo_point 18] \<and>
   list_ex is_save (snd (notebook demo_world two_triangles [])) \<and>
   regions (at_request no_triangle) = [] \<and>
   fst (notebook demo_world no_triangle []) = Inl (NameError ''parms'') \<and>
   \<not> list_ex is_save (snd (notebook demo_world no_triangle [])) \<and>
   cell_save demo_world (demo_ui []) [] None [] =
     (Inl (NameError ''parms''), [Ev Icesat2_get_version (Ret_val demo_version)])"
proof -
  have s: "Ev (Io_to_file [demo_point 15, demo_point 18] ''ATL06-SR.h5'' HDF5 ''pytables''
        [(''poly'', triangle 5), (''srt'', Scalar (SInt 0)), (''len'', Scalar (SInt 40)),
         (''res'', Scalar (SInt 20)), (''cnf'', Scalar (SInt 4)),
         (''atl08_class'', PList [Scalar (SStr ''atl08_ground'')]),
         (''maxi'', Scalar (SInt 1)), (''ats'', Scalar (SFloat 5 2)),
         (''cnt'', Scalar (SInt 10)), (''H_min_win'', Scalar (SFloat 3 0)),
         (''sigma_r_max'', Scalar (SFloat 5 0)),
         (''version'', Scalar (SStr ''v1.0.7'')), (''commit'', Scalar (SStr ''abc123''))]
        [triangle 0, triangle 5]) Ret_none
     \<in> set (snd (notebook demo_world two_triangles []))"
    by code_simp
  have gv: "Ev Icesat2_get_version
      (Ret_val (PDict [(''icesat2'',
         PDict [(''version'', Scalar (SStr ''v1.0.7'')),
                (''commit'', Scalar (SStr ''abc123''))])]))
     \<in> set (snd (notebook demo_world two_triangles []))"
    by code_simp
  have n: "regions (at_request no_triangle) = []"
    "regions (at_request two_triangles) = [triangle 0, triangle 5]"
    by (simp_all add: no_triangle_def two_triangles_def demo_session_def demo_ui_def)
  have e: "fst (notebook demo_world no_triangle []) = Inl (NameError ''parms'')"
    by code_simp
  have r: "fst (notebook demo_world two_triangles []) = Inr [demo_point 15, demo_point 18]"
    by code_simp
  have v: "world_val demo_world [] Icesat2_get_version = Inr demo_version \<and>
      subscript demo_version ''icesat2'' =
        Inr (PDict [(''version'', Scalar (SStr ''v1.0.7'')),
          (''commit'', Scalar (SStr ''abc123''))]) \<and>
      subscript (PDict [(''version'', Scalar (SStr ''v1.0.7'')),
          (''commit'', Scalar (SStr ''abc123''))]) ''version'' = Inr (Scalar (SStr ''v1.0.7''))"
    by (simp add: demo_world_def demo_val_def demo_version_def subscript_def)
  note two = saved_parameters [OF run_pair, where x = demo_world and u = two_triangles
      and g = "[demo_point 15, demo_point 18]" and f = "''ATL06-SR.h5''" and fm = HDF5
      and d = "''pytables''" and rs = "[triangle 0, triangle 5]" and rsp = Ret_none
      and g' = "[demo_point 15, demo_point 18]"
      and p = "[(''poly'', triangle 5), (''srt'', Scalar (SInt 0)), (''len'', Scalar (SInt 40)),
         (''res'', Scalar (SInt 20)), (''cnf'', Scalar (SInt 4)),
         (''atl08_class'', PList [Scalar (SStr ''atl08_ground'')]),
         (''maxi'', Scalar (SInt 1)), (''ats'', Scalar (SFloat 5 2)),
         (''cnt'', Scalar (SInt 10)), (''H_min_win'', Scalar (SFloat 3 0)),
         (''sigma_r_max'', Scalar (SFloat 5 0)),
         (''version'', Scalar (SStr ''v1.0.7'')), (''commit'', Scalar (SStr ''abc123''))]"]
  note none = saved_parameters [OF run_pair, where x = demo_world and u = no_triangle
      and ver' = demo_version and k = "[]" and w = "demo_ui []" and gdf = "[]"
      and i' = "PDict [(''version'', Scalar (SStr ''v1.0.7'')),
          (''commit'', Scalar (SStr ''abc123''))]"
      and v' = "Scalar (SStr ''v1.0.7'')"]
  from two [THEN conjunct1, THEN mp, OF s]
  have a: "regions (at_request two_triangles) \<noteq> []"
    by (rule conjunct1)
  from two [THEN conjunct2, THEN conjunct2, THEN conjunct1, THEN mp, OF r]
  have a': "list_ex is_save (snd (notebook demo_world two_triangles []))" .
  from none [THEN conjunct2, THEN conjunct1, THEN mp, OF n(1)]
  have b: "\<not> list_ex is_save (snd (notebook demo_world no_triangle []))"
    by (rule conjunct2)
  from none [THEN conjunct2, THEN conjunct2, THEN conjunct2, THEN conjunct2, THEN mp, OF v]
  have c: "cell_save demo_world (demo_ui []) [] None [] =
     (Inl (NameError ''parms''), [] @ [Ev Icesat2_get_version (Ret_val demo_version)])" .
  from a a' b c s gv n e r show ?thesis by simp
qed

subsection \<open>Saving and loading\<close>

lemma written_append:
  "written (h @ t) path = (case written t path of Some s \<Rightarrow> Some s | None \<Rightarrow> written h path)"
  by (induction h) (auto split: option.splits)

lemma cell_fileloader_done:
  "cell_fileloader x h = (Inr v, h') \<Longrightarrow> h' = h @ [Ev (Display ''SRwidgets.fileloader'') Ret_none]"
  by (auto simp: cell_fileloader_def call_unit_def split: option.splits)

text \<open>
  Claim C7. Loading right after saving is a round trip. With the file helper as the
  specification describes it (\<open>file_store\<close>) and the file chooser left as it was at
  the save, the load step is called with the file path, the format and the driver of
  the save step, and it returns the table that the save step wrote.
\<close>

theorem round_trip:
  assumes store: "file_store x"
    and save: "cell_save x w gdf parms h = (Inr p', h1)"
    and loader: "cell_fileloader x h1 = (Inr (), h2)"
    and same: "file_name w' = file_name w" "format w' = format w"
  shows "cell_load x w' h2 =
      (Inr gdf, h2 @ [Ev (Io_from_file (file_name w) (format w) ''pytables'') (Ret_frame gdf)]) \<and>
     (\<exists>ver. h2 = h @ [Ev Icesat2_get_version (Ret_val ver),
        Ev (Io_to_file gdf (file_name w) (format w) ''pytables'' p' (regions w)) Ret_none,
        Ev (Display ''SRwidgets.fileloader'') Ret_none])"
proof -
  from cell_save_done [OF save] obtain ver where
    h1: "h1 = h @ [Ev Icesat2_get_version (Ret_val ver),
        Ev (Io_to_file gdf (file_name w) (format w) ''pytables'' p' (regions w)) Ret_none]"
    by blast
  from cell_fileloader_done [OF loader] h1
  have h2: "h2 = h @ [Ev Icesat2_get_version (Ret_val ver),
        Ev (Io_to_file gdf (file_name w) (format w) ''pytables'' p' (regions w)) Ret_none,
        Ev (Display ''SRwidgets.fileloader'') Ret_none]" by simp
  have "written h2 (file_name w) = Some (gdf, format w, ''pytables'')"
    unfolding h2 by (simp add: written_append)
  then have "spec_from_file h2 (file_name w) (format w) ''pytables'' = Inr gdf"
    by (simp add: spec_from_file_def)
  with store have "world_frame x h2 (Io_from_file (file_name w) (format w) ''pytables'') = Inr gdf"
    by (simp add: file_store_def)
  then have "cell_load x w' h2 =
      (Inr gdf, h2 @ [Ev (Io_from_file (file_name w) (format w) ''pytables'') (Ret_frame gdf)])"
    by (simp add: cell_load_def call_frame_def same)
  with h2 show ?thesis by blast
qed

lemma demo_store: "file_store demo_world"
  by (simp add: file_store_def demo_world_def demo_frame_def)

theorem round_trip_witness:
  "file_store demo_world \<and>
   fst (cell_save demo_world (demo_ui [triangle 0]) [demo_point 1]
         (Some (build_parms (demo_ui [triangle 0]) (triangle 0))) []) =
     Inr (dict_set (dict_set (build_parms (demo_ui [triangle 0]) (triangle 0))
           ''version'' (Scalar (SStr ''v1.0.7''))) ''commit'' (Scalar (SStr ''abc123''))) \<and>
   cell_load demo_world (demo_ui [triangle 0])
     (snd (cell_save demo_world (demo_ui [triangle 0]) [demo_point 1]
         (Some (build_parms (demo_ui [triangle 0]) (triangle 0))) []) @
      [Ev (Display ''SRwidgets.fileloader'') Ret_none]) =
     (Inr [demo_point 1],
      snd (cell_save demo_world (demo_ui [triangle 0]) [demo_point 1]
         (Some (build_parms (demo_ui [triangle 0]) (triangle 0))) []) @
      [Ev (Display ''SRwidgets.fileloader'') Ret_none,
       Ev (Io_from_file ''ATL06-SR.h5'' HDF5 ''pytables'') (Ret_frame [demo_point 1])])"
proof -
  let ?w = "demo_ui [triangle 0]"
  let ?s = "cell_save demo_world ?w [demo_point 1] (Some (build_parms ?w (triangle 0))) []"
  have r: "fst ?s = Inr (dict_set (dict_set (build_parms ?w (triangle 0))
           ''version'' (Scalar (SStr ''v1.0.7''))) ''commit'' (Scalar (SStr ''abc123'')))"
    by code_simp
  then have save: "?s = (Inr (dict_set (dict_set (build_parms ?w (triangle 0))
           ''version'' (Scalar (SStr ''v1.0.7''))) ''commit'' (Scalar (SStr ''abc123''))), snd ?s)"
    by (simp add: prod_eq_iff)
  have loader: "cell_fileloader demo_world (snd ?s) =
      (Inr (), snd ?s @ [Ev (Display ''SRwidgets.fileloader'') Ret_none])"
    by (simp add: cell_fileloader_def call_unit_def demo_world_def)
  have f: "file_name ?w = ''ATL06-SR.h5''" "format ?w = HDF5"
    by (simp_all add: demo_ui_def)
  from round_trip [OF demo_store save loader refl refl] demo_store r f
  show ?thesis by simp
qed

subsection \<open>The rows that are plotted\<close>

lemma demo_tabular: "tabular demo_world"
  by (simp add: tabular_def demo_world_def demo_val_def)

lemma yields_call_val_eq:
  "(\<And>h. world_val x h c = Inr v0) \<Longrightarrow> (\<And>rsp. E (Ev c rsp)) \<Longrightarrow>
   yields (call_val x c) (\<lambda>v. v = v0) E"
  by (auto simp: yields_def call_val_def split: sum.splits)

lemma plots_columns_other:
  assumes "\<And>n xs ys cs. blank (call_of ev) \<noteq> Ax_scatter n xs ys cs"
    and "\<And>xs ys style. blank (call_of ev) \<noteq> Ax_plot 1 xs ys style"
  shows "plots_columns gdf ev"
proof (cases "call_of ev")
  case (Ax_scatter n xs ys cs)
  with assms(1) [of n "PList []" "PList []" "PList []"] show ?thesis by simp
next
  case (Ax_plot n xs ys style)
  with assms(2) [of "PList []" "PList []" style] show ?thesis
    by (cases "n = 1") (auto simp: plots_columns_def)
qed (simp_all add: plots_columns_def)

lemma yields_plain:
  assumes "follows m p"
    and "\<And>n xs ys cs. Ax_scatter n xs ys cs \<notin> set p"
    and "\<And>xs ys style. Ax_plot 1 xs ys style \<notin> set p"
  shows "yields m (\<lambda>_. True) (plots_columns gdf)"
  using assms(1)
proof (rule yields_follows)
  fix ev :: "table event"
  assume "blank (call_of ev) \<in> set p"
  with assms(2,3) show "plots_columns gdf ev"
    by (intro plots_columns_other) metis+
qed

lemma yields_calls_plain:
  assumes "\<And>n xs ys zs. Ax_scatter n xs ys zs \<notin> set (map blank cs)"
    and "\<And>xs ys style. Ax_plot 1 xs ys style \<notin> set (map blank cs)"
  shows "yields (calls x cs) (\<lambda>_. True) (plots_columns gdf)"
  using follows_calls assms by (rule yields_plain)

lemma yields_plot_ground_tracks:
  assumes "tabular x"
  shows "yields (plot_ground_tracks x gdf) (\<lambda>_. True) (plots_columns gdf)"
  unfolding plot_ground_tracks_def
  apply (rule yields_bnd [OF yields_call_unit_any [where Q = "\<lambda>_. True"]])
    apply (simp add: plots_columns_def)
   apply simp
  apply (rule yields_bnd [OF yields_call_unit_any [where Q = "\<lambda>_. True"]])
    apply (simp add: plots_columns_def)
   apply simp
  apply (rule yields_bnd [OF yields_call_val_eq])
    apply (use assms in \<open>simp add: tabular_def\<close>)
   apply (simp add: plots_columns_def)
  apply (rule yields_bnd [OF yields_call_val_eq])
    apply (use assms in \<open>simp add: tabular_def\<close>)
   apply (simp add: plots_columns_def)
  apply (rule yields_bnd [OF yields_call_unit_any [where Q = "\<lambda>_. True"]])
    apply (simp add: plots_columns_def)
   apply simp
  apply (rule yields_calls_plain)
   apply (simp_all add: ground_tracks_decoration_def)
  done

lemma yields_plot_heights:
  assumes "tabular x"
  shows "yields (plot_heights x w gdf) (\<lambda>_. True) (plots_columns gdf)"
  unfolding plot_heights_def
  apply (rule yields_bnd [OF yields_call_unit_any [where Q = "\<lambda>_. True"]])
    apply (simp add: plots_columns_def)
   apply simp
  apply (rule yields_bnd [OF yields_call_unit_any [where Q = "\<lambda>_. True"]])
    apply (simp add: plots_columns_def)
   apply simp
  apply (rule yields_bnd [OF yields_call_val_eq])
    apply (use assms in \<open>simp add: tabular_def\<close>)
   apply (simp add: plots_columns_def)
  apply (rule yields_bnd [OF yields_call_val_eq])
    apply (use assms in \<open>simp add: tabular_def\<close>)
   apply (simp add: plots_columns_def)
  apply (rule yields_bnd [OF yields_call_val_eq])
    apply (use assms in \<open>simp add: tabular_def\<close>)
   apply (simp add: plots_columns_def)
  apply (rule yields_bnd [OF yields_call_unit_any [where Q = "\<lambda>_. True"]])
    apply (simp add: plots_columns_def)
   apply simp
  apply (rule yields_bnd [OF yields_plain [OF follows_outline_loop]])
    apply (use set_plan_outlines in fastforce)
   apply (use set_plan_outlines in fastforce)
  apply (rule yields_calls_plain)
   apply (simp_all add: heights_decoration_def)
  done

lemma yields_cell_plot:
  "tabular x \<Longrightarrow> yields (cell_plot x w gdf) (\<lambda>_. True) (plots_columns gdf)"
  unfolding cell_plot_def
  by (rule yields_bnd [OF yields_plot_ground_tracks]) (simp_all add: yields_plot_heights)

lemma run_follows_from:
  assumes f: "follows m p" and run: "m h = (r, h')"
  shows "prefix (shape (drop (length h) h')) p"
    and "\<And>v. r = Inr v \<Longrightarrow> shape (drop (length h) h') = p"
proof -
  from f obtain t where t: "snd (m h) = h @ t" "prefix (shape t) p"
    "case fst (m h) of Inr v \<Rightarrow> shape t = p \<and> raised_in t = [] | Inl e \<Rightarrow> True"
    unfolding follows_def by (metis (no_types, lifting) sum.case_eq_if)
  from t(1,2) run show "prefix (shape (drop (length h) h')) p" by simp
  from t(1,3) run show "\<And>v. r = Inr v \<Longrightarrow> shape (drop (length h) h') = p" by simp
qed

lemma blank_scatter:
  "blank c = Ax_scatter n xs ys cs \<Longrightarrow> \<exists>xs' ys' cs'. c = Ax_scatter n xs' ys' cs'"
  by (cases c) simp_all

lemma blank_plot:
  "blank c = Ax_plot n xs ys style \<Longrightarrow> \<exists>xs' ys'. c = Ax_plot n xs' ys' style"
  by (cases c) simp_all

text \<open>
  Claim C6. The result table is a table of geolocated points with an elevation, and
  every row that the plotting step consumes has its x and y coordinates and its
  \<^verbatim>\<open>h_mean\<close> elevation. With the table as the specification describes it
  (\<open>tabular\<close>), whatever the plotting step draws of the table are the columns x, y
  and \<^verbatim>\<open>h_mean\<close>, which hold one value for each row; a plotting step that
  completes has drawn them on both figures.
\<close>

theorem plotted_rows:
  assumes tab: "tabular x" and run: "cell_plot x w gdf h = (r, h')"
  shows "(Ev (Ax_scatter n xs ys cs) rsp \<in> set (drop (length h) h') \<longrightarrow>
            xs = column geometry_x gdf \<and> ys = column geometry_y gdf \<and>
            cs = column h_mean gdf) \<and>
         (Ev (Ax_plot 1 xs' ys' style) rsp' \<in> set (drop (length h) h') \<longrightarrow>
            xs' = column geometry_x gdf \<and> ys' = column geometry_y gdf) \<and>
         (r = Inr () \<longrightarrow>
            (\<exists>a. Ev (Ax_plot 1 (column geometry_x gdf) (column geometry_y gdf) ''r.'') a
               \<in> set (drop (length h) h')) \<and>
            (\<exists>a. Ev (Ax_scatter 2 (column geometry_x gdf) (column geometry_y gdf)
                 (column h_mean gdf)) a \<in> set (drop (length h) h'))) \<and>
         column geometry_x gdf = PList (map (\<lambda>row. Scalar (geometry_x row)) gdf) \<and>
         column geometry_y gdf = PList (map (\<lambda>row. Scalar (geometry_y row)) gdf) \<and>
         column h_mean gdf = PList (map (\<lambda>row. Scalar (h_mean row)) gdf)"
proof -
  let ?t = "drop (length h) h'"
  note y = run_yields(1) [OF yields_cell_plot [OF tab] run]
  have a: "xs = column geometry_x gdf \<and> ys = column geometry_y gdf \<and> cs = column h_mean gdf"
    if "Ev (Ax_scatter n xs ys cs) rsp \<in> set ?t"
    using y that by (auto simp: list_all_iff plots_columns_def)
  have b: "xs' = column geometry_x gdf \<and> ys' = column geometry_y gdf"
    if "Ev (Ax_plot 1 xs' ys' style) rsp' \<in> set ?t"
    using y that by (auto simp: list_all_iff plots_columns_def)
  have c: "(\<exists>a. Ev (Ax_plot 1 (column geometry_x gdf) (column geometry_y gdf) ''r.'') a
               \<in> set ?t) \<and>
            (\<exists>a. Ev (Ax_scatter 2 (column geometry_x gdf) (column geometry_y gdf)
                 (column h_mean gdf)) a \<in> set ?t)"
    if "r = Inr ()"
  proof -
    from run_follows_from(2) [OF follows_cell_plot run that]
    have s: "shape ?t = plan_plot w" .
    have "Ax_plot 1 (PList []) (PList []) ''r.'' \<in> set (shape ?t)"
      unfolding s by (simp add: plan_plot_def)
    from shape_in_event [OF this] obtain c1 a1 where
      c1: "Ev c1 a1 \<in> set ?t" "blank c1 = Ax_plot 1 (PList []) (PList []) ''r.''" by blast
    from blank_plot [OF c1(2)] obtain xs1 ys1 where "c1 = Ax_plot 1 xs1 ys1 ''r.''" by blast
    with c1(1) y have 1: "Ev (Ax_plot 1 (column geometry_x gdf) (column geometry_y gdf) ''r.'') a1
               \<in> set ?t"
      by (auto simp: list_all_iff plots_columns_def)
    have "Ax_scatter 2 (PList []) (PList []) (PList []) \<in> set (shape ?t)"
      unfolding s by (simp add: plan_plot_def)
    from shape_in_event [OF this] obtain c2 a2 where
      c2: "Ev c2 a2 \<in> set ?t" "blank c2 = Ax_scatter 2 (PList []) (PList []) (PList [])"
      by blast
    from blank_scatter [OF c2(2)] obtain xs2 ys2 cs2 where "c2 = Ax_scatter 2 xs2 ys2 cs2"
      by blast
    with c2(1) y have 2: "Ev (Ax_scatter 2 (column geometry_x gdf) (column geometry_y gdf)
                 (column h_mean gdf)) a2 \<in> set ?t"
      by (auto simp: list_all_iff plots_columns_def)
    from 1 2 show ?thesis by blast
  qed
  from a b c show ?thesis by (simp add: column_def)
qed

theorem plotted_rows_witness:
  "tabular demo_world \<and>
   fst (cell_plot demo_world (demo_ui [triangle 0]) [demo_point 1, demo_point 3] []) = Inr () \<and>
   Ev (Ax_scatter 2 (PList [Scalar (SInt 1), Scalar (SInt 3)])
        (PList [Scalar (SInt 0), Scalar (SInt 0)])
        (PList [Scalar (SFloat 1 10), Scalar (SFloat 1 10)])) Ret_none
     \<in> set (snd (cell_plot demo_world (demo_ui [triangle 0]) [demo_point 1, demo_point 3] [])) \<and>
   column geometry_x [demo_point 1, demo_point 3] = PList [Scalar (SInt 1), Scalar (SInt 3)] \<and>
   column geometry_y [demo_point 1, demo_point 3] = PList [Scalar (SInt 0), Scalar (SInt 0)] \<and>
   column h_mean [demo_point 1, demo_point 3] =
     PList [Scalar (SFloat 1 10), Scalar (SFloat 1 10)]"
proof -
  let ?p = "cell_plot demo_world (demo_ui [triangle 0]) [demo_point 1, demo_point 3] []"
  have r: "fst ?p = Inr ()"
    by code_simp
  have ev: "Ev (Ax_scatter 2 (PList [Scalar (SInt 1), Scalar (SInt 3)])
        (PList [Scalar (SInt 0), Scalar (SInt 0)])
        (PList [Scalar (SFloat 1 10), Scalar (SFloat 1 10)])) Ret_none \<in> set (snd ?p)"
    by code_simp
  have run: "?p = (fst ?p, snd ?p)"
    by simp
  from plotted_rows [OF demo_tabular run, where n = 2
      and xs = "PList [Scalar (SInt 1), Scalar (SInt 3)]"
      and ys = "PList [Scalar (SInt 0), Scalar (SInt 0)]"
      and cs = "PList [Scalar (SFloat 1 10), Scalar (SFloat 1 10)]" and rsp = Ret_none]
    demo_tabular r ev
  show ?thesis by simp
qed

end
